theory Spec2Isabelle
  imports Complex_Main "HOL-Library.Word"
begin

unbundle bit_operations_syntax

section \<open>Register map and configuration constants of \<^verbatim>\<open>drv_bmp280.c\<close>\<close>

definition BMP280_I2C_ADDR :: "8 word" where
  "BMP280_I2C_ADDR = 0x76"

definition BMP280_DEFAULT_CHIP_ID :: "8 word" where
  "BMP280_DEFAULT_CHIP_ID = 0x58"

definition BMP280_CHIP_ID_REG :: "8 word" where
  "BMP280_CHIP_ID_REG = 0xD0"

definition BMP280_CTRL_MEAS_REG :: "8 word" where
  "BMP280_CTRL_MEAS_REG = 0xF4"

definition BMP280_PRESSURE_MSB_REG :: "8 word" where
  "BMP280_PRESSURE_MSB_REG = 0xF7"

definition BMP280_FORCED_MODE :: int where
  "BMP280_FORCED_MODE = 0x01"

definition BMP280_TEMPERATURE_CALIB_DIG_T1_LSB_REG :: "8 word" where
  "BMP280_TEMPERATURE_CALIB_DIG_T1_LSB_REG = 0x88"

definition BMP280_DATA_FRAME_SIZE :: nat where
  "BMP280_DATA_FRAME_SIZE = 6"

definition BMP280_OVERSAMP_1X :: nat where
  "BMP280_OVERSAMP_1X = 0x01"

definition BMP280_OVERSAMP_8X :: nat where
  "BMP280_OVERSAMP_8X = 0x04"

definition BMP280_PRESSURE_OSR :: nat where
  "BMP280_PRESSURE_OSR = BMP280_OVERSAMP_8X"

definition BMP280_TEMPERATURE_OSR :: nat where
  "BMP280_TEMPERATURE_OSR = BMP280_OVERSAMP_1X"

text \<open>
  \<^verbatim>\<open>BMP280_PRESSURE_OSR << 2 | BMP280_TEMPERATURE_OSR << 5 | BMP280_FORCED_MODE\<close>,
  an \<^verbatim>\<open>int\<close> expression that \<^verbatim>\<open>i2cWrite\<close> receives as a byte.
\<close>

definition BMP280_MODE :: "8 word" where
  "BMP280_MODE = word_of_int ((push_bit 2 (int BMP280_PRESSURE_OSR)
                   OR push_bit 5 (int BMP280_TEMPERATURE_OSR)) OR BMP280_FORCED_MODE)"

definition T_INIT_MAX :: int where
  "T_INIT_MAX = 20"

definition T_MEASURE_PER_OSRS_MAX :: int where
  "T_MEASURE_PER_OSRS_MAX = 37"

definition T_SETUP_PRESSURE_MAX :: int where
  "T_SETUP_PRESSURE_MAX = 10"

section \<open>Driver state\<close>

text \<open>
  \<^verbatim>\<open>bmp280_calib_param_t\<close>: \<open>dig_T1\<close> and \<open>dig_P1\<close> are \<^verbatim>\<open>uint16_t\<close> (read with
  \<^const>\<open>uint\<close>), the other coefficients are \<^verbatim>\<open>int16_t\<close> and \<open>t_fine\<close> is \<^verbatim>\<open>int32_t\<close>
  (read with \<^const>\<open>sint\<close>).
\<close>

record bmp280_calib_param_t =
  dig_T1 :: "16 word"
  dig_T2 :: "16 word"
  dig_T3 :: "16 word"
  dig_P1 :: "16 word"
  dig_P2 :: "16 word"
  dig_P3 :: "16 word"
  dig_P4 :: "16 word"
  dig_P5 :: "16 word"
  dig_P6 :: "16 word"
  dig_P7 :: "16 word"
  dig_P8 :: "16 word"
  dig_P9 :: "16 word"
  t_fine :: "32 word"

text \<open>The file-scope statics of the driver; \<open>bmp280_up\<close> and \<open>bmp280_ut\<close> are \<^verbatim>\<open>int32_t\<close>.\<close>

record driver =
  bmp280_chip_id :: "8 word"
  bmp280InitDone :: bool
  bmp280_cal :: bmp280_calib_param_t
  bmp280_up :: "32 word"
  bmp280_ut :: "32 word"

section \<open>The bus primitives and the barometer structure of \<^verbatim>\<open>board.h\<close>\<close>

text \<open>
  Modelled from the spec: \<^verbatim>\<open>board.h\<close> (the declarations of \<^verbatim>\<open>delay\<close>, \<^verbatim>\<open>i2cRead\<close>,
  \<^verbatim>\<open>i2cWrite\<close> and of \<^verbatim>\<open>baro_t\<close>) is not among the sources. The spec gives
  \<^verbatim>\<open>read(deviceAddress, registerAddress, length) -> bytes\<close> and
  \<^verbatim>\<open>write(deviceAddress, registerAddress, byte)\<close>. The bus is the sensor's register file,
  which the device may change at any time between two calls, together with the log of
  every call the driver makes.
\<close>

datatype bus_op =
    Delay nat
  | I2cRead "8 word" "8 word" nat
  | I2cWrite "8 word" "8 word" "8 word"

record i2c_bus =
  regs :: "8 word \<Rightarrow> 8 word"
  traffic :: "bus_op list"

definition delay :: "nat \<Rightarrow> i2c_bus \<Rightarrow> i2c_bus" where
  "delay ms bus = bus\<lparr>traffic := traffic bus @ [Delay ms]\<rparr>"

definition i2cRead :: "8 word \<Rightarrow> 8 word \<Rightarrow> nat \<Rightarrow> i2c_bus \<Rightarrow> 8 word list \<times> i2c_bus" where
  "i2cRead addr reg len bus =
     (map (\<lambda>i. regs bus (reg + of_nat i)) [0..<len],
      bus\<lparr>traffic := traffic bus @ [I2cRead addr reg len]\<rparr>)"

definition i2cWrite :: "8 word \<Rightarrow> 8 word \<Rightarrow> 8 word \<Rightarrow> i2c_bus \<Rightarrow> i2c_bus" where
  "i2cWrite addr reg data bus = bus\<lparr>traffic := traffic bus @ [I2cWrite addr reg data]\<rparr>"

text \<open>
  Modelled from the spec: \<^verbatim>\<open>baro_t\<close>, with the seven fields \<^verbatim>\<open>bmp280Detect\<close> assigns.
  A function pointer is the name of the driver function it points to, or \<open>None\<close>
  while unassigned. The two delays hold the value of the \<^verbatim>\<open>int\<close> expression assigned.
\<close>

datatype baro_fn =
    Bmp280_start_ut
  | Bmp280_get_ut
  | Bmp280_start_up
  | Bmp280_get_up
  | Bmp280_calculate

record baro_t =
  ut_delay :: int
  up_delay :: int
  start_ut :: "baro_fn option"
  get_ut :: "baro_fn option"
  start_up :: "baro_fn option"
  get_up :: "baro_fn option"
  calculate :: "baro_fn option"

section \<open>Detection and calibration load\<close>

text \<open>
  \<^verbatim>\<open>i2cRead(..., 24, (uint8_t *)&bmp280_cal)\<close> copies the calibration block over the first
  24 bytes of the structure: twelve 16-bit fields in declaration order, low byte first on
  the little-endian target; \<open>t_fine\<close> lies behind them and is not touched.
\<close>

definition le16 :: "8 word list \<Rightarrow> nat \<Rightarrow> 16 word" where
  "le16 buf i = word_cat (buf ! (2 * i + 1)) (buf ! (2 * i))"

definition load_calib :: "8 word list \<Rightarrow> bmp280_calib_param_t \<Rightarrow> bmp280_calib_param_t" where
  "load_calib buf cal = cal\<lparr>
     dig_T1 := le16 buf 0, dig_T2 := le16 buf 1, dig_T3 := le16 buf 2,
     dig_P1 := le16 buf 3, dig_P2 := le16 buf 4, dig_P3 := le16 buf 5,
     dig_P4 := le16 buf 6, dig_P5 := le16 buf 7, dig_P6 := le16 buf 8,
     dig_P7 := le16 buf 9, dig_P8 := le16 buf 10, dig_P9 := le16 buf 11\<rparr>"

text \<open>
  The right-hand side of the assignment to \<^verbatim>\<open>baro->up_delay\<close>, as a function of the two
  oversampling codes: \<^verbatim>\<open>(1 << osr) >> 1\<close> is the number of samples of a channel.
\<close>

definition osr_samples :: "nat \<Rightarrow> int" where
  "osr_samples osr = drop_bit 1 (push_bit osr (1 :: int))"

definition up_delay_us :: "nat \<Rightarrow> nat \<Rightarrow> int" where
  "up_delay_us osr_t osr_p =
     ((T_INIT_MAX + T_MEASURE_PER_OSRS_MAX * (osr_samples osr_t + osr_samples osr_p)
       + (if osr_p \<noteq> 0 then T_SETUP_PRESSURE_MAX else 0) + 15) div 16) * 1000"

definition bmp280Detect ::
  "driver \<Rightarrow> i2c_bus \<Rightarrow> baro_t \<Rightarrow> bool \<times> driver \<times> i2c_bus \<times> baro_t" where
  "bmp280Detect s bus baro =
     (if bmp280InitDone s then (True, s, bus, baro)
      else
        let bus1 = delay 20 bus;
            (id_buf, bus2) = i2cRead BMP280_I2C_ADDR BMP280_CHIP_ID_REG 1 bus1;
            s1 = s\<lparr>bmp280_chip_id := id_buf ! 0\<rparr>
        in if bmp280_chip_id s1 \<noteq> BMP280_DEFAULT_CHIP_ID then (False, s1, bus2, baro)
           else
             let (cal_buf, bus3) =
                   i2cRead BMP280_I2C_ADDR BMP280_TEMPERATURE_CALIB_DIG_T1_LSB_REG 24 bus2;
                 s2 = s1\<lparr>bmp280_cal := load_calib cal_buf (bmp280_cal s1)\<rparr>;
                 bus4 = i2cWrite BMP280_I2C_ADDR BMP280_CTRL_MEAS_REG BMP280_MODE bus3;
                 s3 = s2\<lparr>bmp280InitDone := True\<rparr>;
                 baro1 = baro\<lparr>ut_delay := 0, get_ut := Some Bmp280_get_ut,
                              start_ut := Some Bmp280_start_ut\<rparr>;
                 baro2 = baro1\<lparr>up_delay := up_delay_us BMP280_TEMPERATURE_OSR BMP280_PRESSURE_OSR,
                               start_up := Some Bmp280_start_up,
                               get_up := Some Bmp280_get_up,
                               calculate := Some Bmp280_calculate\<rparr>
             in (True, s3, bus4, baro2))"

section \<open>Acquisition\<close>

definition bmp280_start_ut :: "driver \<Rightarrow> i2c_bus \<Rightarrow> driver \<times> i2c_bus" where
  "bmp280_start_ut s bus = (s, bus)"

definition bmp280_get_ut :: "driver \<Rightarrow> i2c_bus \<Rightarrow> driver \<times> i2c_bus" where
  "bmp280_get_ut s bus = (s, bus)"

definition bmp280_start_up :: "driver \<Rightarrow> i2c_bus \<Rightarrow> driver \<times> i2c_bus" where
  "bmp280_start_up s bus = (s, i2cWrite BMP280_I2C_ADDR BMP280_CTRL_MEAS_REG BMP280_MODE bus)"

text \<open>
  Each byte is widened to \<^verbatim>\<open>uint32_t\<close> before it is shifted; the cast to \<^verbatim>\<open>int32_t\<close> keeps
  the 32 bits.
\<close>

definition bmp280_get_up :: "driver \<Rightarrow> i2c_bus \<Rightarrow> driver \<times> i2c_bus" where
  "bmp280_get_up s bus =
     (let (data, bus1) = i2cRead BMP280_I2C_ADDR BMP280_PRESSURE_MSB_REG BMP280_DATA_FRAME_SIZE bus;
          s1 = s\<lparr>bmp280_up := (push_bit 12 (ucast (data ! 0)) OR push_bit 4 (ucast (data ! 1)))
                                OR drop_bit 4 (ucast (data ! 2))\<rparr>;
          s2 = s1\<lparr>bmp280_ut := (push_bit 12 (ucast (data ! 3)) OR push_bit 4 (ucast (data ! 4)))
                                 OR drop_bit 4 (ucast (data ! 5))\<rparr>
      in (s2, bus1))"

section \<open>Single-precision arithmetic\<close>

text \<open>
  The C type \<^verbatim>\<open>float\<close> is IEEE 754 binary32, and every operation on \<^verbatim>\<open>float\<close> operands
  rounds its exact result to the nearest binary32 value, ties to even (the default
  rounding mode; no excess precision, as on the ARM targets of this firmware).
  \<open>Finite m e\<close> is the number \<open>m * 2 ^ e\<close>. The sign of a zero is not represented: it
  can be observed only through a division by zero, and the one division of the driver
  whose divisor is not a constant is guarded by a comparison with zero.
\<close>

datatype float = Finite int int | PInf | NInf | NaN

function bitlen :: "int \<Rightarrow> int" where
  "bitlen a = (if a \<le> 0 then 0 else 1 + bitlen (a div 2))"
  by pat_completeness auto
termination
  by (relation "measure nat") auto

declare bitlen.simps [simp del]

text \<open>\<open>ilog2 a d\<close> is the integer part of the binary logarithm of \<open>a / d\<close>, for positive \<open>a\<close> and \<open>d\<close>.\<close>

definition ilog2 :: "int \<Rightarrow> int \<Rightarrow> int" where
  "ilog2 a d = (let k = bitlen a - bitlen d
     in if d * 2 ^ nat k \<le> a * 2 ^ nat (- k) then k else k - 1)"

text \<open>The integer nearest to \<open>num / den\<close> for \<open>0 < den\<close>, the even one of two equally near.\<close>

definition round_even :: "int \<Rightarrow> int \<Rightarrow> int" where
  "round_even num den = (let k = num div den; r = num mod den
     in if 2 * r < den then k else if den < 2 * r then k + 1
        else if even k then k else k + 1)"

text \<open>
  \<open>rnd n d e\<close> rounds the exact value \<open>(n / d) * 2 ^ e\<close>, \<open>0 < d\<close>, to binary32: 24 bits of
  significand, the exponent of the last place never below \<open>-149\<close> (subnormal numbers),
  and an infinity once the rounded magnitude reaches \<open>2 ^ 128\<close>.
\<close>

definition rnd :: "int \<Rightarrow> int \<Rightarrow> int \<Rightarrow> float" where
  "rnd n d e = (if n = 0 then Finite 0 0 else
     let a = \<bar>n\<bar>;
         qe = max (e + ilog2 a d) (- 126) - 23;
         k = round_even (a * 2 ^ nat (e - qe)) (d * 2 ^ nat (qe - e))
     in if 2 ^ 277 \<le> k * 2 ^ nat (qe + 149) then (if 0 < n then PInf else NInf)
        else if k = 0 then Finite 0 0
        else if k = 2 ^ 24 then Finite (sgn n * 2 ^ 23) (qe + 1)
        else Finite (sgn n * k) qe)"

text \<open>The number a finite value stands for.\<close>

fun valof :: "float \<Rightarrow> rat" where
  "valof (Finite m e) = (if 0 \<le> e then of_int m * 2 ^ nat e else of_int m / 2 ^ nat (- e))"
| "valof _ = 0"

text \<open>\<open>fmag_le x k\<close>: the value \<open>x\<close> is finite and its magnitude is at most \<open>2 ^ k\<close>.\<close>

definition fmag_le :: "float \<Rightarrow> int \<Rightarrow> bool" where
  "fmag_le x k = (case x of Finite m e \<Rightarrow> \<bar>valof x\<bar> \<le> 2 powi k | _ \<Rightarrow> False)"

text \<open>The conversion \<^verbatim>\<open>(float)i\<close> of an integer, and a literal such as \<^verbatim>\<open>16384.0f\<close>.\<close>

definition float_of_int :: "int \<Rightarrow> float" where
  "float_of_int i = rnd i 1 0"

fun fsgn :: "float \<Rightarrow> int" where
  "fsgn (Finite m e) = sgn m"
| "fsgn PInf = 1"
| "fsgn NInf = - 1"
| "fsgn NaN = 0"

definition inf_of :: "int \<Rightarrow> float" where
  "inf_of sg = (if 0 < sg then PInf else NInf)"

fun fneg :: "float \<Rightarrow> float" where
  "fneg (Finite m e) = Finite (- m) e"
| "fneg PInf = NInf"
| "fneg NInf = PInf"
| "fneg NaN = NaN"

fun fadd :: "float \<Rightarrow> float \<Rightarrow> float" where
  "fadd (Finite m1 e1) (Finite m2 e2) =
     (let e = min e1 e2 in rnd (m1 * 2 ^ nat (e1 - e) + m2 * 2 ^ nat (e2 - e)) 1 e)"
| "fadd NaN y = NaN"
| "fadd x NaN = NaN"
| "fadd PInf NInf = NaN"
| "fadd NInf PInf = NaN"
| "fadd PInf y = PInf"
| "fadd NInf y = NInf"
| "fadd x PInf = PInf"
| "fadd x NInf = NInf"

definition fsub :: "float \<Rightarrow> float \<Rightarrow> float" where
  "fsub x y = fadd x (fneg y)"

fun fmul :: "float \<Rightarrow> float \<Rightarrow> float" where
  "fmul (Finite m1 e1) (Finite m2 e2) = rnd (m1 * m2) 1 (e1 + e2)"
| "fmul NaN y = NaN"
| "fmul x NaN = NaN"
| "fmul x y = (if fsgn x * fsgn y = 0 then NaN else inf_of (fsgn x * fsgn y))"

fun fdiv :: "float \<Rightarrow> float \<Rightarrow> float" where
  "fdiv (Finite m1 e1) (Finite m2 e2) =
     (if m2 = 0 then (if m1 = 0 then NaN else inf_of (sgn m1))
      else rnd (m1 * sgn m2) \<bar>m2\<bar> (e1 - e2))"
| "fdiv NaN y = NaN"
| "fdiv x NaN = NaN"
| "fdiv (Finite m1 e1) y = Finite 0 0"
| "fdiv x (Finite m2 e2) = (if m2 < 0 then fneg x else x)"
| "fdiv x y = NaN"

text \<open>The comparison \<^verbatim>\<open>x == y\<close>: false whenever an operand is not a number.\<close>

fun feq :: "float \<Rightarrow> float \<Rightarrow> bool" where
  "feq (Finite m1 e1) (Finite m2 e2) =
     (let e = min e1 e2 in m1 * 2 ^ nat (e1 - e) = m2 * 2 ^ nat (e2 - e))"
| "feq PInf PInf = True"
| "feq NInf NInf = True"
| "feq x y = False"

text \<open>
  The conversion \<^verbatim>\<open>(int32_t)x\<close> discards the fraction. Its behaviour is undefined in C
  when the integer part is not an \<^verbatim>\<open>int32_t\<close> or \<open>x\<close> is not finite: \<open>None\<close>.
\<close>

fun int32_of_float :: "float \<Rightarrow> 32 word option" where
  "int32_of_float (Finite m e) =
     (let t = (if 0 \<le> e then m * 2 ^ nat e else sgn m * (\<bar>m\<bar> div 2 ^ nat (- e)))
      in if - (2 ^ 31) \<le> t \<and> t < 2 ^ 31 then Some (word_of_int t) else None)"
| "int32_of_float x = None"

text \<open>Signed \<^verbatim>\<open>int32_t\<close> multiplication, undefined on overflow.\<close>

definition mul_int32 :: "32 word \<Rightarrow> 32 word \<Rightarrow> 32 word option" where
  "mul_int32 x y = (let r = sint x * sint y
     in if - (2 ^ 31) \<le> r \<and> r < 2 ^ 31 then Some (word_of_int r) else None)"

section \<open>Compensation\<close>

text \<open>
  \<^verbatim>\<open>bmp280_compensate_T\<close> returns the temperature and leaves \<open>t_fine\<close> overwritten; it has
  no result where the conversion of \<^verbatim>\<open>var1 + var2\<close> to \<^verbatim>\<open>int32_t\<close> is undefined.
\<close>

definition bmp280_compensate_T ::
  "bmp280_calib_param_t \<Rightarrow> 32 word \<Rightarrow> (float \<times> bmp280_calib_param_t) option" where
  "bmp280_compensate_T cal adc_T =
     (let var1 = fmul (fsub (fdiv (float_of_int (sint adc_T)) (float_of_int 16384))
                            (fdiv (float_of_int (uint (dig_T1 cal))) (float_of_int 1024)))
                      (float_of_int (sint (dig_T2 cal)));
          var2 = fmul (fmul (fsub (fdiv (float_of_int (sint adc_T)) (float_of_int 131072))
                                  (fdiv (float_of_int (uint (dig_T1 cal))) (float_of_int 8192)))
                            (fsub (fdiv (float_of_int (sint adc_T)) (float_of_int 131072))
                                  (fdiv (float_of_int (uint (dig_T1 cal))) (float_of_int 8192))))
                      (float_of_int (sint (dig_T3 cal)))
      in case int32_of_float (fadd var1 var2) of
           None \<Rightarrow> None
         | Some tf \<Rightarrow> Some (fdiv (fadd var1 var2) (float_of_int 5120), cal\<lparr>t_fine := tf\<rparr>))"

text \<open>
  The value of \<^verbatim>\<open>var1 + var2\<close> in \<^verbatim>\<open>bmp280_compensate_T\<close>: the sum whose integer part
  becomes \<open>t_fine\<close> and whose quotient by 5120 is the temperature.
\<close>

definition bmp280_T_sum :: "bmp280_calib_param_t \<Rightarrow> 32 word \<Rightarrow> float" where
  "bmp280_T_sum cal adc_T =
     (let var1 = fmul (fsub (fdiv (float_of_int (sint adc_T)) (float_of_int 16384))
                            (fdiv (float_of_int (uint (dig_T1 cal))) (float_of_int 1024)))
                      (float_of_int (sint (dig_T2 cal)));
          var2 = fmul (fmul (fsub (fdiv (float_of_int (sint adc_T)) (float_of_int 131072))
                                  (fdiv (float_of_int (uint (dig_T1 cal))) (float_of_int 8192)))
                            (fsub (fdiv (float_of_int (sint adc_T)) (float_of_int 131072))
                                  (fdiv (float_of_int (uint (dig_T1 cal))) (float_of_int 8192))))
                      (float_of_int (sint (dig_T3 cal)))
      in fadd var1 var2)"

text \<open>The value of \<^verbatim>\<open>var1\<close> that \<^verbatim>\<open>bmp280_compensate_P\<close> compares with zero and divides by.\<close>

definition bmp280_P_divisor :: "bmp280_calib_param_t \<Rightarrow> float" where
  "bmp280_P_divisor cal =
     (let var1 = fsub (fdiv (float_of_int (sint (t_fine cal))) (float_of_int 2)) (float_of_int 64000);
          var1 = fdiv (fadd (fdiv (fmul (fmul (float_of_int (sint (dig_P3 cal))) var1) var1)
                                  (float_of_int 524288))
                            (fmul (float_of_int (sint (dig_P2 cal))) var1))
                      (float_of_int 524288)
      in fmul (fadd (float_of_int 1) (fdiv var1 (float_of_int 32768)))
              (float_of_int (uint (dig_P1 cal))))"

definition bmp280_compensate_P :: "bmp280_calib_param_t \<Rightarrow> 32 word \<Rightarrow> float" where
  "bmp280_compensate_P cal adc_P =
     (let var1 = fsub (fdiv (float_of_int (sint (t_fine cal))) (float_of_int 2)) (float_of_int 64000);
          var2 = fdiv (fmul (fmul var1 var1) (float_of_int (sint (dig_P6 cal)))) (float_of_int 32768);
          var2 = fadd var2 (fmul (fmul var1 (float_of_int (sint (dig_P5 cal)))) (float_of_int 2));
          var2 = fadd (fdiv var2 (float_of_int 4))
                      (fmul (float_of_int (sint (dig_P4 cal))) (float_of_int 65536));
          var1 = fdiv (fadd (fdiv (fmul (fmul (float_of_int (sint (dig_P3 cal))) var1) var1)
                                  (float_of_int 524288))
                            (fmul (float_of_int (sint (dig_P2 cal))) var1))
                      (float_of_int 524288);
          var1 = fmul (fadd (float_of_int 1) (fdiv var1 (float_of_int 32768)))
                      (float_of_int (uint (dig_P1 cal)))
      in if feq var1 (float_of_int 0) then float_of_int 0
         else
           let p = fsub (float_of_int 1048576) (float_of_int (sint adc_P));
               p = fdiv (fmul (fsub p (fdiv var2 (float_of_int 4096))) (float_of_int 6250)) var1;
               var1 = fdiv (fmul (fmul (float_of_int (sint (dig_P9 cal))) p) p)
                           (float_of_int 2147483648);
               var2 = fdiv (fmul p (float_of_int (sint (dig_P8 cal)))) (float_of_int 32768);
               p = fadd p (fdiv (fadd (fadd var1 var2) (float_of_int (sint (dig_P7 cal))))
                                (float_of_int 16))
           in p)"

text \<open>
  \<^verbatim>\<open>bmp280_calculate\<close> writes through its two pointers. A pointer is an address or null
  (\<open>None\<close>), and the memory it points into is a map from addresses to \<^verbatim>\<open>int32_t\<close> cells.
  \<^verbatim>\<open>(int32_t)t * 100\<close> converts first and multiplies the integer.
\<close>

text \<open>
  \<^verbatim>\<open>if (ptr) *ptr = v;\<close> where \<open>v\<close> is evaluated only behind the test: nothing is
  computed or stored through a null pointer, and an undefined \<open>v\<close> leaves no result.
\<close>

definition store_int32 ::
  "nat option \<Rightarrow> 32 word option \<Rightarrow> (nat \<Rightarrow> 32 word) \<Rightarrow> (nat \<Rightarrow> 32 word) option" where
  "store_int32 ptr v mem =
     (case ptr of
        None \<Rightarrow> Some mem
      | Some a \<Rightarrow> (case v of None \<Rightarrow> None | Some x \<Rightarrow> Some (mem(a := x))))"

definition bmp280_calculate ::
  "driver \<Rightarrow> nat option \<Rightarrow> nat option \<Rightarrow> (nat \<Rightarrow> 32 word)
     \<Rightarrow> (driver \<times> (nat \<Rightarrow> 32 word)) option" where
  "bmp280_calculate s pressure temperature mem =
     (case bmp280_compensate_T (bmp280_cal s) (bmp280_ut s) of
        None \<Rightarrow> None
      | Some (t, cal1) \<Rightarrow>
          let s1 = s\<lparr>bmp280_cal := cal1\<rparr>;
              p = bmp280_compensate_P (bmp280_cal s1) (bmp280_up s1)
          in (case store_int32 pressure (int32_of_float p) mem of
                None \<Rightarrow> None
              | Some mem1 \<Rightarrow>
                  (case store_int32 temperature
                          (Option.bind (int32_of_float t) (\<lambda>ti. mul_int32 ti 100)) mem1 of
                     None \<Rightarrow> None
                   | Some mem2 \<Rightarrow> Some (s1, mem2))))"

text \<open>
  The same calculation as a processor runs it. Where the value does not fit, C leaves the
  conversion to \<^verbatim>\<open>int32_t\<close> undefined, but the conversion instruction or routine of a
  target still delivers some word, and the \<^verbatim>\<open>int32_t\<close> multiplication wraps. \<open>ub x\<close> is the
  word the target delivers for a value \<open>x\<close> that does not fit; it is a parameter, and
  nothing is assumed about it. Where C defines the conversion, \<open>int32_cast\<close> is the
  conversion of C.
\<close>

definition int32_cast :: "(float \<Rightarrow> 32 word) \<Rightarrow> float \<Rightarrow> 32 word" where
  "int32_cast ub x = (case int32_of_float x of None \<Rightarrow> ub x | Some w \<Rightarrow> w)"

definition bmp280_compensate_T_target ::
  "(float \<Rightarrow> 32 word) \<Rightarrow> bmp280_calib_param_t \<Rightarrow> 32 word \<Rightarrow> float \<times> bmp280_calib_param_t" where
  "bmp280_compensate_T_target ub cal adc_T =
     (let var1 = fmul (fsub (fdiv (float_of_int (sint adc_T)) (float_of_int 16384))
                            (fdiv (float_of_int (uint (dig_T1 cal))) (float_of_int 1024)))
                      (float_of_int (sint (dig_T2 cal)));
          var2 = fmul (fmul (fsub (fdiv (float_of_int (sint adc_T)) (float_of_int 131072))
                                  (fdiv (float_of_int (uint (dig_T1 cal))) (float_of_int 8192)))
                            (fsub (fdiv (float_of_int (sint adc_T)) (float_of_int 131072))
                                  (fdiv (float_of_int (uint (dig_T1 cal))) (float_of_int 8192))))
                      (float_of_int (sint (dig_T3 cal)))
      in (fdiv (fadd var1 var2) (float_of_int 5120),
          cal\<lparr>t_fine := int32_cast ub (fadd var1 var2)\<rparr>))"

definition bmp280_calculate_target ::
  "(float \<Rightarrow> 32 word) \<Rightarrow> driver \<Rightarrow> nat option \<Rightarrow> nat option \<Rightarrow> (nat \<Rightarrow> 32 word)
     \<Rightarrow> driver \<times> (nat \<Rightarrow> 32 word)" where
  "bmp280_calculate_target ub s pressure temperature mem =
     (let (t, cal1) = bmp280_compensate_T_target ub (bmp280_cal s) (bmp280_ut s);
          s1 = s\<lparr>bmp280_cal := cal1\<rparr>;
          p = bmp280_compensate_P (bmp280_cal s1) (bmp280_up s1);
          mem1 = (case pressure of None \<Rightarrow> mem | Some a \<Rightarrow> mem(a := int32_cast ub p));
          mem2 = (case temperature of
                    None \<Rightarrow> mem1
                  | Some a \<Rightarrow> mem1(a := int32_cast ub t * 100))
      in (s1, mem2))"

section \<open>What the spec counts and computes\<close>

text \<open>
  The call counts of the spec's idempotence property, read off the log of the bus: the
  reads of the 24-byte calibration block and the writes to the control register.
\<close>

definition calibration_reads :: "bus_op list \<Rightarrow> nat" where
  "calibration_reads tr = length (filter (\<lambda>op. op = I2cRead BMP280_I2C_ADDR
      BMP280_TEMPERATURE_CALIB_DIG_T1_LSB_REG 24) tr)"

definition control_writes :: "bus_op list \<Rightarrow> nat" where
  "control_writes tr = length (filter (\<lambda>op. case op of
      I2cWrite a r v \<Rightarrow> a = BMP280_I2C_ADDR \<and> r = BMP280_CTRL_MEAS_REG | _ \<Rightarrow> False) tr)"

text \<open>
  The closed form of the latency bound as the spec words it, in the two sample counts:
  \<open>((T_INIT_MAX + T_MEASURE_PER_OSRS_MAX * (osrT_count + osrP_count) + T_SETUP_PRESSURE_MAX
  + 15) / 16) * 1000\<close>.
\<close>

definition spec_latency_us :: "int \<Rightarrow> int \<Rightarrow> int" where
  "spec_latency_us osrT_count osrP_count =
     ((T_INIT_MAX + T_MEASURE_PER_OSRS_MAX * (osrT_count + osrP_count)
       + T_SETUP_PRESSURE_MAX + 15) div 16) * 1000"

text \<open>
  The temperature in hundredths of a degree as the spec words it: the integer part of
  100 times the compensated temperature, \<^verbatim>\<open>(int32_t)(t * 100)\<close>.
\<close>

definition spec_temperature_centi :: "float \<Rightarrow> 32 word option" where
  "spec_temperature_centi t = int32_of_float (fmul t (float_of_int 100))"

section \<open>Concrete devices\<close>

text \<open>A register file given by the registers that are not zero.\<close>

definition regs_of :: "(8 word \<times> 8 word) list \<Rightarrow> 8 word \<Rightarrow> 8 word" where
  "regs_of kvs r = (case map_of kvs r of None \<Rightarrow> 0 | Some v \<Rightarrow> v)"

text \<open>
  A sensor that answers with the chip id \<open>0x58\<close>, holds the calibration of the data
  sheet's worked example (\<open>dig_T1 = 27504\<close>, \<open>dig_T2 = 26435\<close>, \<open>dig_T3 = -1000\<close>,
  \<open>dig_P1 = 36477\<close>, \<open>dig_P2 = -10685\<close>, \<open>dig_P3 = 3024\<close>, \<open>dig_P4 = 2855\<close>, \<open>dig_P5 = 140\<close>,
  \<open>dig_P6 = -7\<close>, \<open>dig_P7 = 15500\<close>, \<open>dig_P8 = -14600\<close>, \<open>dig_P9 = 6000\<close>) in the registers
  from \<open>0x88\<close> on, and in the registers from \<open>0xF7\<close> on the frame of that example: raw
  pressure \<open>415148 = 0x655AC\<close> and raw temperature \<open>519888 = 0x7EED0\<close>.
\<close>

definition reference_sensor :: i2c_bus where
  "reference_sensor = \<lparr>regs = regs_of
     [(0xD0, 0x58),
      (0x88, 0x70), (0x89, 0x6B), (0x8A, 0x43), (0x8B, 0x67), (0x8C, 0x18), (0x8D, 0xFC),
      (0x8E, 0x7D), (0x8F, 0x8E), (0x90, 0x43), (0x91, 0xD6), (0x92, 0xD0), (0x93, 0x0B),
      (0x94, 0x27), (0x95, 0x0B), (0x96, 0x8C), (0x97, 0x00), (0x98, 0xF9), (0x99, 0xFF),
      (0x9A, 0x8C), (0x9B, 0x3C), (0x9C, 0xF8), (0x9D, 0xC6), (0x9E, 0x70), (0x9F, 0x17),
      (0xF7, 0x65), (0xF8, 0x5A), (0xF9, 0xC0), (0xFA, 0x7E), (0xFB, 0xED), (0xFC, 0x00)],
     traffic = []\<rparr>"

definition reference_cal :: bmp280_calib_param_t where
  "reference_cal = \<lparr>dig_T1 = 27504, dig_T2 = 26435, dig_T3 = - 1000,
     dig_P1 = 36477, dig_P2 = - 10685, dig_P3 = 3024, dig_P4 = 2855, dig_P5 = 140,
     dig_P6 = - 7, dig_P7 = 15500, dig_P8 = - 14600, dig_P9 = 6000, t_fine = 0\<rparr>"

text \<open>A bus on which no BMP280 answers: every register reads zero.\<close>

definition absent_sensor :: i2c_bus where
  "absent_sensor = \<lparr>regs = regs_of [], traffic = []\<rparr>"

text \<open>
  The statics as their initialisers leave them: \<^verbatim>\<open>bmp280_chip_id = 0\<close>,
  \<^verbatim>\<open>bmp280InitDone = false\<close>, \<^verbatim>\<open>bmp280_up = 0\<close>, \<^verbatim>\<open>bmp280_ut = 0\<close>, and \<^verbatim>\<open>bmp280_cal\<close>
  zeroed as every static without an initialiser.
\<close>

definition driver_init :: driver where
  "driver_init = \<lparr>bmp280_chip_id = 0, bmp280InitDone = False,
     bmp280_cal = \<lparr>dig_T1 = 0, dig_T2 = 0, dig_T3 = 0, dig_P1 = 0, dig_P2 = 0, dig_P3 = 0,
       dig_P4 = 0, dig_P5 = 0, dig_P6 = 0, dig_P7 = 0, dig_P8 = 0, dig_P9 = 0, t_fine = 0\<rparr>,
     bmp280_up = 0, bmp280_ut = 0\<rparr>"

definition baro_init :: baro_t where
  "baro_init = \<lparr>ut_delay = 0, up_delay = 0, start_ut = None, get_ut = None,
     start_up = None, get_up = None, calculate = None\<rparr>"

text \<open>
  The driver after a successful \<^verbatim>\<open>bmp280Detect\<close> and one \<^verbatim>\<open>bmp280_get_up\<close> on the
  reference sensor.
\<close>

definition reference_state :: driver where
  "reference_state =
     fst (bmp280_get_up (fst (snd (bmp280Detect driver_init reference_sensor baro_init)))
            reference_sensor)"

text \<open>
  A sensor with the chip id \<open>0x58\<close> and the frame of the reference sensor whose
  calibration block is corrupt: \<open>dig_P1 = 1\<close> and every other coefficient zero. Its
  compensated pressure, \<open>3958925056\<close>, does not fit an \<^verbatim>\<open>int32_t\<close>.
\<close>

definition corrupt_sensor :: i2c_bus where
  "corrupt_sensor = \<lparr>regs = regs_of
     [(0xD0, 0x58), (0x8E, 0x01),
      (0xF7, 0x65), (0xF8, 0x5A), (0xF9, 0xC0), (0xFA, 0x7E), (0xFB, 0xED), (0xFC, 0x00)],
     traffic = []\<rparr>"

definition corrupt_state :: driver where
  "corrupt_state =
     fst (bmp280_get_up (fst (snd (bmp280Detect driver_init corrupt_sensor baro_init)))
            corrupt_sensor)"

section \<open>Raw frame decoding\<close>

lemma byte_bounds: "0 \<le> uint (b :: 8 word) \<and> uint b < 256"
  using uint_lt2p [of b] by simp

lemma raw20_range:
  fixes b0 b1 b2 :: "8 word"
  shows "0 \<le> (push_bit 12 (uint b0) OR push_bit 4 (uint b1)) OR drop_bit 4 (uint b2)"
    and "(push_bit 12 (uint b0) OR push_bit 4 (uint b1)) OR drop_bit 4 (uint b2) < 2 ^ 20"
proof -
  have b: "0 \<le> uint b0" "uint b0 < 256" "0 \<le> uint b1" "uint b1 < 256"
          "0 \<le> uint b2" "uint b2 < 256"
    using byte_bounds by auto
  show "0 \<le> (push_bit 12 (uint b0) OR push_bit 4 (uint b1)) OR drop_bit 4 (uint b2)"
    by simp
  have h0: "push_bit 12 (uint b0) < 2 ^ 20"
    using b by (simp add: push_bit_eq_mult)
  have h1: "push_bit 4 (uint b1) < 2 ^ 20"
    using b by (simp add: push_bit_eq_mult)
  have h2: "drop_bit 4 (uint b2) < 2 ^ 20"
    using b by (simp add: drop_bit_eq_div)
  have n0: "0 \<le> push_bit 12 (uint b0)"
    and n01: "0 \<le> push_bit 12 (uint b0) OR push_bit 4 (uint b1)"
    by simp_all
  have "push_bit 12 (uint b0) OR push_bit 4 (uint b1) < 2 ^ 20"
    using n0 h0 h1 by (rule OR_upper)
  with n01 show "(push_bit 12 (uint b0) OR push_bit 4 (uint b1)) OR drop_bit 4 (uint b2) < 2 ^ 20"
    using h2 by (rule OR_upper)
qed

lemma raw20_uint:
  fixes b0 b1 b2 :: "8 word"
  shows "uint ((push_bit 12 (ucast b0) OR push_bit 4 (ucast b1)) OR drop_bit 4 (ucast b2) :: 32 word)
       = (push_bit 12 (uint b0) OR push_bit 4 (uint b1)) OR drop_bit 4 (uint b2)"
proof -
  have b: "0 \<le> uint b0" "uint b0 < 256" "0 \<le> uint b1" "uint b1 < 256"
    using byte_bounds by auto
  have t: "take_bit 32 (uint c) = uint c" for c :: "8 word"
    using byte_bounds [of c] by (simp add: take_bit_int_eq_self)
  have p0: "take_bit 32 (push_bit 12 (uint b0)) = push_bit 12 (uint b0)"
    using b by (simp add: take_bit_int_eq_self push_bit_eq_mult)
  have p1: "take_bit 32 (push_bit 4 (uint b1)) = push_bit 4 (uint b1)"
    using b by (simp add: take_bit_int_eq_self push_bit_eq_mult)
  show ?thesis
    by (simp add: unsigned_or_eq unsigned_push_bit_eq unsigned_drop_bit_eq unsigned_ucast_eq t p0 p1)
qed

lemma raw20_sint:
  fixes b0 b1 b2 :: "8 word"
  shows "sint ((push_bit 12 (ucast b0) OR push_bit 4 (ucast b1)) OR drop_bit 4 (ucast b2) :: 32 word)
       = (push_bit 12 (uint b0) OR push_bit 4 (uint b1)) OR drop_bit 4 (uint b2)"
proof -
  let ?x = "(push_bit 12 (uint b0) OR push_bit 4 (uint b1)) OR drop_bit 4 (uint b2)"
  have lo: "- (2 ^ 31) \<le> ?x"
    using raw20_range(1) [of b0 b1 b2] by (rule order_trans [rotated]) simp
  have hi: "?x < 2 ^ 31"
    using raw20_range(2) [of b0 b1 b2] by (rule less_trans) simp
  from lo hi have "signed_take_bit 31 ?x = ?x"
    by (rule signed_take_bit_int_eq_self)
  then show ?thesis
    by (simp add: sint_uint raw20_uint)
qed

lemma i2cRead_frame:
  "fst (i2cRead a r 6 bus) = [regs bus r, regs bus (r + 1), regs bus (r + 2),
      regs bus (r + 3), regs bus (r + 4), regs bus (r + 5)]"
  by (simp add: i2cRead_def upt_rec)

lemma get_up_frame:
  "fst (i2cRead BMP280_I2C_ADDR BMP280_PRESSURE_MSB_REG BMP280_DATA_FRAME_SIZE bus)
     = [regs bus 0xF7, regs bus 0xF8, regs bus 0xF9, regs bus 0xFA, regs bus 0xFB, regs bus 0xFC]"
  by (simp add: BMP280_DATA_FRAME_SIZE_def BMP280_PRESSURE_MSB_REG_def i2cRead_frame)

lemma get_up_up:
  "bmp280_up (fst (bmp280_get_up s bus))
     = (push_bit 12 (ucast (regs bus 0xF7)) OR push_bit 4 (ucast (regs bus 0xF8)))
         OR drop_bit 4 (ucast (regs bus 0xF9))"
  using get_up_frame [of bus] by (simp add: bmp280_get_up_def split_def Let_def)

lemma get_up_ut:
  "bmp280_ut (fst (bmp280_get_up s bus))
     = (push_bit 12 (ucast (regs bus 0xFA)) OR push_bit 4 (ucast (regs bus 0xFB)))
         OR drop_bit 4 (ucast (regs bus 0xFC))"
  using get_up_frame [of bus] by (simp add: bmp280_get_up_def split_def Let_def)

lemma get_up_traffic:
  "traffic (snd (bmp280_get_up s bus)) = traffic bus @ [I2cRead 0x76 0xF7 6]"
  by (simp add: bmp280_get_up_def split_def Let_def i2cRead_def BMP280_DATA_FRAME_SIZE_def
      BMP280_PRESSURE_MSB_REG_def BMP280_I2C_ADDR_def)

text \<open>
  Claim C3. \<^verbatim>\<open>bmp280_get_up\<close> makes one read of 6 bytes from register \<open>0xF7\<close> on. Whatever
  the six bytes are, the raw pressure it stores is \<open>(byte0 << 12) | (byte1 << 4) | (byte2 >> 4)\<close>
  and the raw temperature is \<open>(byte3 << 12) | (byte4 << 4) | (byte5 >> 4)\<close>, computed on
  unbounded integers (so nothing is lost in the 32-bit arithmetic of the code or in the
  cast to \<^verbatim>\<open>int32_t\<close>), and both lie between 0 and 1048575.
\<close>

theorem get_up_decodes_frame:
  "sint (bmp280_up (fst (bmp280_get_up s bus)))
     = (push_bit 12 (uint (regs bus 0xF7)) OR push_bit 4 (uint (regs bus 0xF8)))
         OR drop_bit 4 (uint (regs bus 0xF9))
   \<and> sint (bmp280_ut (fst (bmp280_get_up s bus)))
     = (push_bit 12 (uint (regs bus 0xFA)) OR push_bit 4 (uint (regs bus 0xFB)))
         OR drop_bit 4 (uint (regs bus 0xFC))
   \<and> 0 \<le> sint (bmp280_up (fst (bmp280_get_up s bus)))
   \<and> sint (bmp280_up (fst (bmp280_get_up s bus))) \<le> 1048575
   \<and> 0 \<le> sint (bmp280_ut (fst (bmp280_get_up s bus)))
   \<and> sint (bmp280_ut (fst (bmp280_get_up s bus))) \<le> 1048575
   \<and> traffic (snd (bmp280_get_up s bus)) = traffic bus @ [I2cRead 0x76 0xF7 6]"
proof -
  have r1: "0 \<le> sint (bmp280_up (fst (bmp280_get_up s bus)))"
           "sint (bmp280_up (fst (bmp280_get_up s bus))) < 2 ^ 20"
    unfolding get_up_up raw20_sint by (rule raw20_range)+
  have r2: "0 \<le> sint (bmp280_ut (fst (bmp280_get_up s bus)))"
           "sint (bmp280_ut (fst (bmp280_get_up s bus))) < 2 ^ 20"
    unfolding get_up_ut raw20_sint by (rule raw20_range)+
  from r1 r2 show ?thesis
    by (simp add: get_up_up get_up_ut raw20_sint get_up_traffic)
qed

text \<open>
  Claim C4, as the code has it. With the bytes \<open>0xAB\<close>, \<open>0xCD\<close>, \<open>0xE0\<close> in the three pressure
  registers, and likewise in the three temperature registers, the decoded value is
  \<open>(0xAB << 12) | (0xCD << 4) | (0xE0 >> 4) = 0xABCDE\<close>, which is 703710.
\<close>

theorem get_up_decodes_triplet:
  "sint (bmp280_up (fst (bmp280_get_up s
      (bus\<lparr>regs := (regs bus)(0xF7 := 0xAB, 0xF8 := 0xCD, 0xF9 := 0xE0)\<rparr>)))) = 703710
   \<and> sint (bmp280_ut (fst (bmp280_get_up s
      (bus\<lparr>regs := (regs bus)(0xFA := 0xAB, 0xFB := 0xCD, 0xFC := 0xE0)\<rparr>)))) = 703710
   \<and> (push_bit 12 0xAB OR push_bit 4 0xCD) OR drop_bit 4 0xE0 = (703710 :: int)"
  by (simp add: get_up_up get_up_ut)

text \<open>
  The number the claim gives for this triplet, 703182, is not what the decoding yields
  on the device that holds the triplet in its pressure registers.
\<close>

theorem get_up_triplet_not_703182:
  "sint (bmp280_up (fst (bmp280_get_up driver_init
      \<lparr>regs = regs_of [(0xF7, 0xAB), (0xF8, 0xCD), (0xF9, 0xE0)], traffic = []\<rparr>))) \<noteq> 703182"
  by (simp add: get_up_up regs_of_def)

section \<open>Detection\<close>

lemma BMP280_MODE_value: "BMP280_MODE = 0x31"
  by (simp add: BMP280_MODE_def BMP280_PRESSURE_OSR_def BMP280_TEMPERATURE_OSR_def
      BMP280_OVERSAMP_8X_def BMP280_OVERSAMP_1X_def BMP280_FORCED_MODE_def)

lemma detect_done:
  "bmp280InitDone s \<Longrightarrow> bmp280Detect s bus baro = (True, s, bus, baro)"
  by (simp add: bmp280Detect_def)

lemma detect_absent:
  "\<not> bmp280InitDone s \<Longrightarrow> regs bus 0xD0 \<noteq> 0x58 \<Longrightarrow>
   bmp280Detect s bus baro =
     (False, s\<lparr>bmp280_chip_id := regs bus 0xD0\<rparr>,
      bus\<lparr>traffic := traffic bus @ [Delay 20, I2cRead 0x76 0xD0 1]\<rparr>, baro)"
  by (simp add: bmp280Detect_def i2cRead_def delay_def Let_def BMP280_CHIP_ID_REG_def
      BMP280_DEFAULT_CHIP_ID_def BMP280_I2C_ADDR_def)

lemma detect_found:
  "\<not> bmp280InitDone s \<Longrightarrow> regs bus 0xD0 = 0x58 \<Longrightarrow>
   bmp280Detect s bus baro =
     (True,
      s\<lparr>bmp280_chip_id := 0x58,
        bmp280_cal := load_calib (map (\<lambda>i. regs bus (0x88 + of_nat i)) [0..<24]) (bmp280_cal s),
        bmp280InitDone := True\<rparr>,
      bus\<lparr>traffic := traffic bus @ [Delay 20, I2cRead 0x76 0xD0 1, I2cRead 0x76 0x88 24,
        I2cWrite 0x76 0xF4 0x31]\<rparr>,
      baro\<lparr>ut_delay := 0, get_ut := Some Bmp280_get_ut, start_ut := Some Bmp280_start_ut,
        up_delay := up_delay_us BMP280_TEMPERATURE_OSR BMP280_PRESSURE_OSR,
        start_up := Some Bmp280_start_up, get_up := Some Bmp280_get_up,
        calculate := Some Bmp280_calculate\<rparr>)"
  by (simp add: bmp280Detect_def i2cRead_def i2cWrite_def delay_def Let_def BMP280_CHIP_ID_REG_def
      BMP280_DEFAULT_CHIP_ID_def BMP280_I2C_ADDR_def BMP280_MODE_value
      BMP280_TEMPERATURE_CALIB_DIG_T1_LSB_REG_def BMP280_CTRL_MEAS_REG_def)

lemmas count_defs = calibration_reads_def control_writes_def BMP280_I2C_ADDR_def
  BMP280_TEMPERATURE_CALIB_DIG_T1_LSB_REG_def BMP280_CTRL_MEAS_REG_def

lemma driver_init_not_done: "\<not> bmp280InitDone driver_init"
  by (simp add: driver_init_def)

lemma reference_sensor_id: "regs reference_sensor 0xD0 = 0x58"
  by (simp add: reference_sensor_def regs_of_def)

text \<open>
  Claim C6. Take a driver that is not yet initialised and a call of \<^verbatim>\<open>bmp280Detect\<close> that
  returns true. That call makes exactly one read of the 24-byte calibration block and
  exactly one write to the control register, and it sets the flag. From the state it
  leaves, every further call, whatever the bus holds and whatever structure it is given,
  returns true and changes nothing: neither the driver, nor the bus and its log, nor
  the structure. So any number of calls make one calibration read and one control write
  in total.
\<close>

theorem detect_idempotent:
  assumes "\<not> bmp280InitDone s"
    and "bmp280Detect s bus baro = (True, s1, bus1, baro1)"
  shows "calibration_reads (traffic bus1) = calibration_reads (traffic bus) + 1
       \<and> control_writes (traffic bus1) = control_writes (traffic bus) + 1
       \<and> bmp280InitDone s1
       \<and> (\<forall>bus' baro'. bmp280Detect s1 bus' baro' = (True, s1, bus', baro'))"
proof -
  have id: "regs bus 0xD0 = 0x58"
  proof (rule ccontr)
    assume "regs bus 0xD0 \<noteq> 0x58"
    with assms(1) have "fst (bmp280Detect s bus baro) = False"
      by (simp add: detect_absent)
    with assms(2) show False by simp
  qed
  from detect_found [OF assms(1) id, of baro] assms(2)
  have s1: "bmp280InitDone s1"
    and tr: "traffic bus1 = traffic bus @ [Delay 20, I2cRead 0x76 0xD0 1, I2cRead 0x76 0x88 24,
        I2cWrite 0x76 0xF4 0x31]"
    by auto
  from s1 have "\<forall>bus' baro'. bmp280Detect s1 bus' baro' = (True, s1, bus', baro')"
    by (simp add: detect_done)
  with s1 tr show ?thesis
    by (simp add: count_defs)
qed

theorem detect_idempotent_witness:
  "calibration_reads (traffic (fst (snd (snd (bmp280Detect driver_init reference_sensor baro_init))))) = 1
   \<and> control_writes (traffic (fst (snd (snd (bmp280Detect driver_init reference_sensor baro_init))))) = 1
   \<and> fst (bmp280Detect driver_init reference_sensor baro_init)
   \<and> bmp280Detect (fst (snd (bmp280Detect driver_init reference_sensor baro_init))) absent_sensor baro_init
       = (True, fst (snd (bmp280Detect driver_init reference_sensor baro_init)), absent_sensor, baro_init)"
proof -
  obtain s1 bus1 baro1 where
    d: "bmp280Detect driver_init reference_sensor baro_init = (True, s1, bus1, baro1)"
    using detect_found [OF driver_init_not_done reference_sensor_id, of baro_init] by simp
  have t0: "traffic reference_sensor = []"
    by (simp add: reference_sensor_def)
  from detect_idempotent [OF driver_init_not_done d] t0 show ?thesis
    by (simp add: d calibration_reads_def control_writes_def)
qed

text \<open>
  Claim C7. On a driver that is not initialised, \<^verbatim>\<open>bmp280Detect\<close> returns false exactly
  when the byte read from the identity register \<open>0xD0\<close> is not \<open>0x58\<close>. In that case the
  only things it did were the start-up delay and the one-byte identity read: no
  calibration read, no control write; the flag is still unset, the calibration is
  untouched and the barometer structure is the one it was given.
\<close>

theorem detect_absent_device:
  assumes "\<not> bmp280InitDone s"
  shows "(fst (bmp280Detect s bus baro) = False \<longleftrightarrow> regs bus 0xD0 \<noteq> 0x58)
       \<and> (regs bus 0xD0 \<noteq> 0x58 \<longrightarrow>
            bmp280Detect s bus baro =
              (False, s\<lparr>bmp280_chip_id := regs bus 0xD0\<rparr>,
               bus\<lparr>traffic := traffic bus @ [Delay 20, I2cRead 0x76 0xD0 1]\<rparr>, baro)
            \<and> calibration_reads (traffic (fst (snd (snd (bmp280Detect s bus baro)))))
                = calibration_reads (traffic bus)
            \<and> control_writes (traffic (fst (snd (snd (bmp280Detect s bus baro)))))
                = control_writes (traffic bus)
            \<and> \<not> bmp280InitDone (fst (snd (bmp280Detect s bus baro)))
            \<and> bmp280_cal (fst (snd (bmp280Detect s bus baro))) = bmp280_cal s
            \<and> snd (snd (snd (bmp280Detect s bus baro))) = baro)"
proof (cases "regs bus 0xD0 = 0x58")
  case True
  with assms show ?thesis
    by (simp add: detect_found)
next
  case False
  with assms show ?thesis
    by (simp add: detect_absent count_defs)
qed

theorem detect_absent_device_witness:
  "\<not> bmp280InitDone driver_init \<and> regs absent_sensor 0xD0 \<noteq> 0x58
   \<and> bmp280Detect driver_init absent_sensor baro_init =
       (False, driver_init, \<lparr>regs = regs_of [], traffic = [Delay 20, I2cRead 0x76 0xD0 1]\<rparr>, baro_init)"
proof -
  have r: "regs absent_sensor 0xD0 \<noteq> 0x58"
    by (simp add: absent_sensor_def regs_of_def)
  from detect_absent_device [OF driver_init_not_done, of absent_sensor baro_init] r
    driver_init_not_done
  show ?thesis
    by (simp add: absent_sensor_def driver_init_def regs_of_def)
qed

section \<open>The latency bound\<close>

lemma osr_samples_eq: "osr_samples osr = (if osr = 0 then 0 else 2 ^ (osr - 1))"
proof (cases osr)
  case 0
  then show ?thesis by (simp add: osr_samples_def)
next
  case (Suc n)
  then show ?thesis by (simp add: osr_samples_def push_bit_eq_mult drop_bit_eq_div)
qed

lemma osr_samples_mono: "a \<le> b \<Longrightarrow> osr_samples a \<le> osr_samples b"
  by (auto simp: osr_samples_eq intro: power_increasing)

lemma osr_samples_zero: "osr_samples p \<le> osr_samples p' \<Longrightarrow> p \<noteq> 0 \<Longrightarrow> p' \<noteq> 0"
  by (auto simp: osr_samples_eq split: if_splits)

lemma up_delay_us_mono:
  assumes "osr_samples t \<le> osr_samples t'" "osr_samples p \<le> osr_samples p'"
  shows "up_delay_us t p \<le> up_delay_us t' p'"
proof -
  have s: "(if p \<noteq> 0 then T_SETUP_PRESSURE_MAX else 0)
      \<le> (if p' \<noteq> 0 then T_SETUP_PRESSURE_MAX else 0)"
    using osr_samples_zero [OF assms(2)] by (auto simp: T_SETUP_PRESSURE_MAX_def)
  have "T_INIT_MAX + T_MEASURE_PER_OSRS_MAX * (osr_samples t + osr_samples p)
          + (if p \<noteq> 0 then T_SETUP_PRESSURE_MAX else 0) + 15
        \<le> T_INIT_MAX + T_MEASURE_PER_OSRS_MAX * (osr_samples t' + osr_samples p')
          + (if p' \<noteq> 0 then T_SETUP_PRESSURE_MAX else 0) + 15"
    using assms s by (simp add: T_MEASURE_PER_OSRS_MAX_def)
  then have "(T_INIT_MAX + T_MEASURE_PER_OSRS_MAX * (osr_samples t + osr_samples p)
          + (if p \<noteq> 0 then T_SETUP_PRESSURE_MAX else 0) + 15) div 16
        \<le> (T_INIT_MAX + T_MEASURE_PER_OSRS_MAX * (osr_samples t' + osr_samples p')
          + (if p' \<noteq> 0 then T_SETUP_PRESSURE_MAX else 0) + 15) div 16"
    by (rule zdiv_mono1) simp
  then show ?thesis
    by (simp add: up_delay_us_def)
qed

lemma spec_latency_us_mono:
  assumes "a \<le> a'" "b \<le> b'"
  shows "spec_latency_us a b \<le> spec_latency_us a' b'"
proof -
  have "T_INIT_MAX + T_MEASURE_PER_OSRS_MAX * (a + b) + T_SETUP_PRESSURE_MAX + 15
        \<le> T_INIT_MAX + T_MEASURE_PER_OSRS_MAX * (a' + b') + T_SETUP_PRESSURE_MAX + 15"
    using assms by (simp add: T_MEASURE_PER_OSRS_MAX_def)
  then have "(T_INIT_MAX + T_MEASURE_PER_OSRS_MAX * (a + b) + T_SETUP_PRESSURE_MAX + 15) div 16
        \<le> (T_INIT_MAX + T_MEASURE_PER_OSRS_MAX * (a' + b') + T_SETUP_PRESSURE_MAX + 15) div 16"
    by (rule zdiv_mono1) simp
  then show ?thesis
    by (simp add: spec_latency_us_def)
qed

text \<open>
  The expression of the code is the spec's closed form whenever pressure is measured at
  all; with pressure skipped the code leaves the set-up time out.
\<close>

lemma up_delay_us_closed_form:
  "osr_p \<noteq> 0 \<Longrightarrow> up_delay_us osr_t osr_p = spec_latency_us (osr_samples osr_t) (osr_samples osr_p)"
  by (simp add: up_delay_us_def spec_latency_us_def)

lemma configured_samples:
  "osr_samples BMP280_TEMPERATURE_OSR = 1 \<and> osr_samples BMP280_PRESSURE_OSR = 8"
  by (simp add: osr_samples_eq BMP280_TEMPERATURE_OSR_def BMP280_PRESSURE_OSR_def
      BMP280_OVERSAMP_1X_def BMP280_OVERSAMP_8X_def)

lemma configured_up_delay:
  "up_delay_us BMP280_TEMPERATURE_OSR BMP280_PRESSURE_OSR = 23000"
  by (simp add: up_delay_us_def osr_samples_eq T_INIT_MAX_def T_MEASURE_PER_OSRS_MAX_def
      T_SETUP_PRESSURE_MAX_def BMP280_TEMPERATURE_OSR_def BMP280_PRESSURE_OSR_def
      BMP280_OVERSAMP_1X_def BMP280_OVERSAMP_8X_def)

lemma configured_closed_form:
  "up_delay_us BMP280_TEMPERATURE_OSR BMP280_PRESSURE_OSR
     = spec_latency_us (osr_samples BMP280_TEMPERATURE_OSR) (osr_samples BMP280_PRESSURE_OSR)"
  by (rule up_delay_us_closed_form) (simp add: BMP280_PRESSURE_OSR_def BMP280_OVERSAMP_8X_def)

text \<open>
  For the six oversampling codes of the header, 0 to 5, every value of the expression
  fits the \<^verbatim>\<open>int\<close> it is computed in.
\<close>

lemma up_delay_us_int_range:
  assumes "osr_t \<le> 5" "osr_p \<le> 5"
  shows "0 \<le> up_delay_us osr_t osr_p \<and> up_delay_us osr_t osr_p \<le> 76000"
proof -
  have z: "up_delay_us 0 0 = 2000"
    by (simp add: up_delay_us_def osr_samples_eq T_INIT_MAX_def T_MEASURE_PER_OSRS_MAX_def)
  have m: "up_delay_us 5 5 = 76000"
    by (simp add: up_delay_us_def osr_samples_eq T_INIT_MAX_def T_MEASURE_PER_OSRS_MAX_def
        T_SETUP_PRESSURE_MAX_def)
  have "up_delay_us 0 0 \<le> up_delay_us osr_t osr_p"
    by (intro up_delay_us_mono osr_samples_mono) simp_all
  moreover have "up_delay_us osr_t osr_p \<le> up_delay_us 5 5"
    using assms by (intro up_delay_us_mono osr_samples_mono)
  ultimately show ?thesis
    using z m by simp
qed

text \<open>
  With the pressure measurement skipped the code adds no set-up time.
\<close>

lemma up_delay_us_skipped:
  "up_delay_us osr_t 0
     = ((T_INIT_MAX + T_MEASURE_PER_OSRS_MAX * osr_samples osr_t + 15) div 16) * 1000"
  by (simp add: up_delay_us_def osr_samples_eq)

lemma latency_values:
  "spec_latency_us 2 4 = 16000" "up_delay_us 1 0 = 4000" "spec_latency_us 1 0 = 5000"
  "osr_samples 2 = 2" "osr_samples 3 = 4"
  by (simp_all add: spec_latency_us_def up_delay_us_def osr_samples_eq T_INIT_MAX_def
      T_MEASURE_PER_OSRS_MAX_def T_SETUP_PRESSURE_MAX_def)

text \<open>
  Claim C8. When \<^verbatim>\<open>bmp280Detect\<close> initialises the driver, the \<open>up_delay\<close> it stores is the
  expression of the code at the configured oversampling codes. For every temperature
  code and every pressure code other than zero, the expression of the code is the closed
  form \<open>((T_INIT_MAX + T_MEASURE_PER_OSRS_MAX * (osrT_count + osrP_count) +
  T_SETUP_PRESSURE_MAX + 15) / 16) * 1000\<close> in the sample counts of the two codes, and the
  sample count of a code is \<open>2 ^ (osr - 1)\<close>, zero for the code zero. With the pressure
  code zero, which skips the pressure measurement, the code leaves the set-up term out.
  At the configured sample counts, 1 for temperature and 8 for pressure, the bound is 23000
  microseconds. The closed form never decreases when a sample count grows, and neither
  does the expression of the code.
\<close>

theorem detect_latency_bound:
  assumes "\<not> bmp280InitDone s" and "regs bus 0xD0 = 0x58"
  shows "up_delay (snd (snd (snd (bmp280Detect s bus baro))))
           = up_delay_us BMP280_TEMPERATURE_OSR BMP280_PRESSURE_OSR
       \<and> (\<forall>t p. p \<noteq> 0 \<longrightarrow>
             up_delay_us t p = spec_latency_us (osr_samples t) (osr_samples p))
       \<and> (\<forall>t. up_delay_us t 0
             = ((T_INIT_MAX + T_MEASURE_PER_OSRS_MAX * osr_samples t + 15) div 16) * 1000)
       \<and> (\<forall>osr. osr_samples osr = (if osr = 0 then 0 else 2 ^ (osr - 1)))
       \<and> up_delay (snd (snd (snd (bmp280Detect s bus baro))))
           = spec_latency_us (osr_samples BMP280_TEMPERATURE_OSR) (osr_samples BMP280_PRESSURE_OSR)
       \<and> osr_samples BMP280_TEMPERATURE_OSR = 1 \<and> osr_samples BMP280_PRESSURE_OSR = 8
       \<and> up_delay (snd (snd (snd (bmp280Detect s bus baro)))) = 23000
       \<and> (\<forall>a a' b b'. a \<le> a' \<and> b \<le> b' \<longrightarrow> spec_latency_us a b \<le> spec_latency_us a' b')
       \<and> (\<forall>t t' p p'. osr_samples t \<le> osr_samples t' \<and> osr_samples p \<le> osr_samples p'
             \<longrightarrow> up_delay_us t p \<le> up_delay_us t' p')"
proof -
  have u: "up_delay (snd (snd (snd (bmp280Detect s bus baro))))
      = up_delay_us BMP280_TEMPERATURE_OSR BMP280_PRESSURE_OSR"
    using assms by (simp add: detect_found)
  have g: "\<forall>t p. p \<noteq> 0 \<longrightarrow>
      up_delay_us t p = spec_latency_us (osr_samples t) (osr_samples p)"
    by (simp add: up_delay_us_closed_form)
  have k: "\<forall>t. up_delay_us t 0
      = ((T_INIT_MAX + T_MEASURE_PER_OSRS_MAX * osr_samples t + 15) div 16) * 1000"
    by (simp add: up_delay_us_skipped)
  have e: "\<forall>osr. osr_samples osr = (if osr = 0 then 0 else 2 ^ (osr - 1))"
    using osr_samples_eq by blast
  have m1: "\<forall>a a' b b'. a \<le> a' \<and> b \<le> b' \<longrightarrow> spec_latency_us a b \<le> spec_latency_us a' b'"
    using spec_latency_us_mono by blast
  have m2: "\<forall>t t' p p'. osr_samples t \<le> osr_samples t' \<and> osr_samples p \<le> osr_samples p'
      \<longrightarrow> up_delay_us t p \<le> up_delay_us t' p'"
    using up_delay_us_mono by blast
  have c: "up_delay_us BMP280_TEMPERATURE_OSR BMP280_PRESSURE_OSR
      = spec_latency_us (osr_samples BMP280_TEMPERATURE_OSR) (osr_samples BMP280_PRESSURE_OSR)"
    by (rule configured_closed_form)
  have v: "up_delay_us BMP280_TEMPERATURE_OSR BMP280_PRESSURE_OSR = 23000"
    by (rule configured_up_delay)
  from configured_samples have s1: "osr_samples BMP280_TEMPERATURE_OSR = 1"
    and s8: "osr_samples BMP280_PRESSURE_OSR = 8"
    by simp_all
  show ?thesis
    unfolding u
    by (intro conjI refl g k e c s1 s8 v m1 m2)
qed

theorem detect_latency_bound_witness:
  "up_delay (snd (snd (snd (bmp280Detect driver_init reference_sensor baro_init)))) = 23000
   \<and> spec_latency_us 1 8 = 23000
   \<and> up_delay_us 2 3 = spec_latency_us 2 4
   \<and> up_delay_us 2 3 = 16000
   \<and> up_delay_us 1 0 = 4000
   \<and> spec_latency_us 1 8 \<le> spec_latency_us 2 16
   \<and> up_delay_us 1 4 \<le> up_delay_us 2 5"
proof -
  note t = detect_latency_bound [OF driver_init_not_done reference_sensor_id, of baro_init]
  have m: "osr_samples 1 \<le> osr_samples 2 \<and> osr_samples 4 \<le> osr_samples 5"
    by (simp add: osr_samples_eq)
  from t have u: "up_delay (snd (snd (snd (bmp280Detect driver_init reference_sensor baro_init)))) = 23000"
    by blast
  from t have c: "spec_latency_us 1 8 = 23000"
    by metis
  from t have "(3::nat) \<noteq> 0 \<longrightarrow> up_delay_us 2 3 = spec_latency_us (osr_samples 2) (osr_samples 3)"
    by blast
  then have g: "up_delay_us 2 3 = spec_latency_us 2 4"
    by (simp add: latency_values)
  then have g2: "up_delay_us 2 3 = 16000"
    by (simp add: latency_values)
  have z: "up_delay_us 1 0 = 4000"
    by (rule latency_values)
  from t have "(1::int) \<le> 2 \<and> (8::int) \<le> 16 \<longrightarrow> spec_latency_us 1 8 \<le> spec_latency_us 2 16"
    by blast
  then have l: "spec_latency_us 1 8 \<le> spec_latency_us 2 16"
    by simp
  from t m have k: "up_delay_us 1 4 \<le> up_delay_us 2 5"
    by blast
  from u c g g2 z l k show ?thesis
    by blast
qed

section \<open>Single-precision arithmetic: known values\<close>

text \<open>
  The rounding on values whose binary32 image is known: one third (\<open>0x3EAAAAAB\<close>), one
  tenth (\<open>0x3DCCCCCD\<close>), the integers around \<open>2 ^ 24\<close> where ties go to the even
  significand, the largest finite number and the first magnitude that overflows, and
  the smallest subnormal.
\<close>

lemma rnd_known_values:
  "rnd 1 3 0 = Finite 11184811 (- 25)"
  "rnd 1 10 0 = Finite 13421773 (- 27)"
  "float_of_int 16777215 = Finite 16777215 0"
  "float_of_int 16777217 = Finite 8388608 1"
  "float_of_int 16777219 = Finite 8388610 1"
  "rnd (2 ^ 128 - 2 ^ 103 - 1) 1 0 = Finite 16777215 104"
  "rnd (2 ^ 128 - 2 ^ 103) 1 0 = PInf"
  "rnd (- (2 ^ 128)) 1 0 = NInf"
  "rnd 1 1 (- 149) = Finite 1 (- 149)"
  "rnd 3 1 (- 151) = Finite 1 (- 149)"
  "rnd 1 1 (- 150) = Finite 0 0"
  by code_simp+

lemma float_of_int_0: "float_of_int 0 = Finite 0 0"
  by (simp add: float_of_int_def rnd_def)

lemma feq_zero: "feq (Finite m e) (float_of_int 0) \<longleftrightarrow> m = 0"
  by (simp add: float_of_int_0 Let_def)

section \<open>Single-precision arithmetic: magnitudes\<close>

text \<open>
  Rounding never leaves the range of a power of two: an exact result of magnitude at most
  \<open>2 ^ K\<close>, \<open>K \<le> 127\<close>, rounds to a finite number of magnitude at most \<open>2 ^ K\<close>. So
  the operations map bounded finite operands to bounded finite results.
\<close>

lemma pow_nat_powi: "0 \<le> s \<Longrightarrow> (of_int (2 ^ nat s) :: rat) = 2 powi s"
proof -
  assume "0 \<le> s"
  then have "(2::rat) powi s = 2 ^ nat s"
    by (rule power_int_nonneg_exp)
  then show ?thesis
    by simp
qed

lemma inv_powi: "s < 0 \<Longrightarrow> (2::rat) powi s = 1 / 2 ^ nat (- s)"
proof -
  assume "s < 0"
  then have "(2::rat) powi s = inverse 2 ^ nat (- s)"
    unfolding power_int_def by simp
  also have "\<dots> = 1 / 2 ^ nat (- s)"
    by (simp add: power_one_over)
  finally show ?thesis .
qed

lemma valof_powi: "valof (Finite m e) = of_int m * 2 powi e"
proof (cases "0 \<le> e")
  case True
  then show ?thesis
    using pow_nat_powi [of e] by simp
next
  case False
  then show ?thesis
    using inv_powi [of e] by simp
qed

lemma shift_ratio: "(of_int (2 ^ nat s) :: rat) / of_int (2 ^ nat (- s)) = 2 powi s"
proof (cases "0 \<le> s")
  case True
  then have "nat (- s) = 0"
    by simp
  then show ?thesis
    using pow_nat_powi [OF True] by simp
next
  case False
  then have "nat s = 0"
    by simp
  then show ?thesis
    using False inv_powi [of s] by simp
qed

lemma round_even_le:
  assumes "0 < den" "num \<le> N * den"
  shows "round_even num den \<le> N"
proof -
  have "num div den \<le> (N * den) div den"
    using assms(2) assms(1) by (rule zdiv_mono1)
  then have k: "num div den \<le> N"
    using assms(1) by simp
  show ?thesis
  proof (cases "num div den = N")
    case True
    have "num = den * (num div den) + num mod den"
      by simp
    with True have "num = den * N + num mod den"
      by simp
    with assms(2) have "num mod den \<le> 0"
      by (simp add: mult.commute)
    moreover have "0 \<le> num mod den"
      using assms(1) by simp
    ultimately have "num mod den = 0"
      by simp
    with True assms(1) show ?thesis
      by (simp add: round_even_def Let_def)
  next
    case False
    with k have "num div den + 1 \<le> N"
      by simp
    with k show ?thesis
      by (simp add: round_even_def Let_def)
  qed
qed

lemma round_even_nonneg:
  assumes "0 < den" "0 \<le> num"
  shows "0 \<le> round_even num den"
proof -
  have "0 \<le> num div den"
    using assms by (simp add: pos_imp_zdiv_nonneg_iff)
  then show ?thesis
    by (simp add: round_even_def Let_def)
qed

lemma round_even_zero:
  assumes "0 \<le> num" "2 * num \<le> den"
  shows "round_even num den = 0"
proof (cases "num = 0")
  case True
  then show ?thesis
    using assms by (simp add: round_even_def Let_def)
next
  case False
  with assms have "num < den"
    by simp
  with assms have "num div den = 0" "num mod den = num"
    by simp_all
  with assms show ?thesis
    by (simp add: round_even_def Let_def)
qed

lemma abs_valof: "\<bar>valof (Finite m e)\<bar> = \<bar>of_int m\<bar> * 2 powi e"
proof -
  have "\<bar>(2::rat) powi e\<bar> = 2 powi e"
    by (rule abs_of_pos) simp
  then show ?thesis
    by (simp only: valof_powi abs_mult)
qed

lemma fmag_le_Finite: "fmag_le (Finite m e) k \<longleftrightarrow> \<bar>of_int m\<bar> * 2 powi e \<le> (2::rat) powi k"
  unfolding fmag_le_def by (simp only: float.case abs_valof)

lemma powi_add: "(2::rat) powi (i + j) = 2 powi i * 2 powi j"
  by (rule power_int_add) simp

lemma powi_mono: "i \<le> j \<Longrightarrow> (2::rat) powi i \<le> 2 powi j"
  by (rule power_int_increasing) simp_all

lemma rnd_bounded:
  assumes d: "0 < d"
    and b: "\<bar>of_int n / of_int d * 2 powi e\<bar> \<le> (2::rat) powi K"
    and K: "K \<le> 127"
  shows "fmag_le (rnd n d e) K"
proof (cases "n = 0")
  case True
  then show ?thesis
    by (simp add: rnd_def fmag_le_Finite)
next
  case False
  define a where "a = \<bar>n\<bar>"
  define qe where "qe = max (e + ilog2 a d) (- 126) - 23"
  define num where "num = a * 2 ^ nat (e - qe)"
  define den where "den = d * 2 ^ nat (qe - e)"
  define k where "k = round_even num den"
  have a_pos: "0 < a"
    using False by (simp add: a_def)
  have qe_lb: "- 149 \<le> qe"
    by (simp add: qe_def)
  have den_pos: "0 < den"
    using d by (simp add: den_def)
  have num_nonneg: "0 \<le> num"
    using a_pos by (simp add: num_def)
  have k_nonneg: "0 \<le> k"
    unfolding k_def using den_pos num_nonneg by (rule round_even_nonneg)
  have ratio: "(of_int num :: rat) / of_int den = of_int a / of_int d * 2 powi (e - qe)"
  proof -
    have "(of_int num :: rat) / of_int den
        = (of_int a / of_int d) * (of_int (2 ^ nat (e - qe)) / of_int (2 ^ nat (- (e - qe))))"
      by (simp add: num_def den_def)
    then show ?thesis
      by (simp only: shift_ratio)
  qed
  have xabs: "\<bar>of_int n / of_int d * 2 powi e\<bar> = (of_int a :: rat) / of_int d * 2 powi e"
    using d by (simp add: a_def abs_mult)
  have y: "(of_int num :: rat) / of_int den \<le> 2 powi (K - qe)"
  proof -
    have "(of_int num :: rat) / of_int den = (of_int a / of_int d * 2 powi e) * 2 powi (- qe)"
      using powi_add [of e "- qe"] by (simp add: ratio)
    also have "\<dots> \<le> 2 powi K * 2 powi (- qe)"
    proof (rule mult_right_mono)
      show "(of_int a :: rat) / of_int d * 2 powi e \<le> 2 powi K"
        using b by (simp only: xabs)
      show "0 \<le> (2::rat) powi (- qe)"
        by simp
    qed
    also have "\<dots> = 2 powi (K - qe)"
      using powi_add [of K "- qe"] by simp
    finally show ?thesis .
  qed
  have kb: "(of_int k :: rat) \<le> 2 powi (K - qe)"
  proof (cases "0 \<le> K - qe")
    case True
    define N :: int where "N = 2 ^ nat (K - qe)"
    have N: "(of_int N :: rat) = 2 powi (K - qe)"
      unfolding N_def using True by (rule pow_nat_powi)
    have "(of_int num :: rat) \<le> of_int N * of_int den"
      using y den_pos by (simp add: N pos_divide_le_eq)
    then have "(of_int num :: rat) \<le> of_int (N * den)"
      by simp
    then have "num \<le> N * den"
      by (simp only: of_int_le_iff)
    with den_pos have "k \<le> N"
      unfolding k_def by (rule round_even_le)
    then have "(of_int k :: rat) \<le> of_int N"
      by simp
    then show ?thesis
      by (simp only: N)
  next
    case False
    then have "K - qe \<le> - 1"
      by simp
    then have "(2::rat) powi (K - qe) \<le> 2 powi (- 1)"
      by (rule powi_mono)
    also have "(2::rat) powi (- 1) = 1 / 2"
      by simp
    finally have "(2::rat) powi (K - qe) \<le> 1 / 2" .
    with y have "(of_int num :: rat) / of_int den \<le> 1 / 2"
      by (rule order_trans)
    then have "(of_int (2 * num) :: rat) \<le> of_int den"
      using den_pos by (simp add: pos_divide_le_eq)
    then have "2 * num \<le> den"
      by (simp only: of_int_le_iff)
    with num_nonneg have "k = 0"
      unfolding k_def by (rule round_even_zero)
    then show ?thesis
      by simp
  qed
  have val: "(of_int k :: rat) * 2 powi qe \<le> 2 powi K"
  proof -
    have "(of_int k :: rat) * 2 powi qe \<le> 2 powi (K - qe) * 2 powi qe"
      using kb by (rule mult_right_mono) simp
    also have "\<dots> = 2 powi K"
      using powi_add [of "K - qe" qe] by simp
    finally show ?thesis .
  qed
  have no_ovf: "\<not> 2 ^ 277 \<le> k * 2 ^ nat (qe + 149)"
  proof -
    have "(of_int (k * 2 ^ nat (qe + 149)) :: rat) = of_int k * 2 powi (qe + 149)"
      using qe_lb pow_nat_powi [of "qe + 149"] by simp
    also have "\<dots> = (of_int k * 2 powi qe) * 2 powi 149"
      using powi_add [of qe 149] by simp
    also have "\<dots> \<le> 2 powi K * 2 powi 149"
      using val by (rule mult_right_mono) simp
    also have "\<dots> = 2 powi (K + 149)"
      using powi_add [of K 149] by simp
    also have "\<dots> \<le> 2 powi 276"
      using K by (intro powi_mono) simp
    also have "\<dots> < of_int (2 ^ 277)"
      by simp
    finally have "k * 2 ^ nat (qe + 149) < 2 ^ 277"
      by (simp only: of_int_less_iff)
    then show ?thesis
      by simp
  qed
  have "rnd n d e = (if 2 ^ 277 \<le> k * 2 ^ nat (qe + 149) then (if 0 < n then PInf else NInf)
      else if k = 0 then Finite 0 0
      else if k = 2 ^ 24 then Finite (sgn n * 2 ^ 23) (qe + 1) else Finite (sgn n * k) qe)"
    unfolding rnd_def Let_def k_def num_def den_def qe_def a_def
    by (simp only: False if_False)
  then have r: "rnd n d e = (if k = 0 then Finite 0 0
      else if k = 2 ^ 24 then Finite (sgn n * 2 ^ 23) (qe + 1) else Finite (sgn n * k) qe)"
    by (simp only: no_ovf if_False)
  have s: "\<bar>(of_int (sgn n * j) :: rat)\<bar> = of_int j" if "0 \<le> j" for j
  proof -
    have "\<bar>sgn n * j\<bar> = j"
      using False that by (simp add: abs_mult abs_sgn_eq)
    then have "(of_int \<bar>sgn n * j\<bar> :: rat) = of_int j"
      by (simp only:)
    then show ?thesis
      by (simp only: of_int_abs)
  qed
  show ?thesis
  proof (cases "k = 0")
    case True
    then show ?thesis
      by (simp add: r fmag_le_Finite)
  next
    case k0: False
    show ?thesis
    proof (cases "k = 2 ^ 24")
      case True
      have p: "(2::rat) powi (qe + 1) = 2 powi qe * 2"
        using powi_add [of qe 1] by simp
      have "\<bar>(of_int (sgn n * 2 ^ 23) :: rat)\<bar> = of_int (2 ^ 23)"
        by (rule s) simp
      then have "\<bar>of_int (sgn n * 2 ^ 23)\<bar> * (2::rat) powi (qe + 1) = of_int k * 2 powi qe"
        by (simp add: p True)
      with val have "\<bar>of_int (sgn n * 2 ^ 23)\<bar> * (2::rat) powi (qe + 1) \<le> 2 powi K"
        by (simp only:)
      moreover have "rnd n d e = Finite (sgn n * 2 ^ 23) (qe + 1)"
        using k0 True by (simp add: r)
      ultimately show ?thesis
        by (simp only: fmag_le_Finite)
    next
      case False
      have "\<bar>(of_int (sgn n * k) :: rat)\<bar> = of_int k"
        using k_nonneg by (rule s)
      with val have "\<bar>of_int (sgn n * k)\<bar> * (2::rat) powi qe \<le> 2 powi K"
        by (simp only:)
      moreover have "rnd n d e = Finite (sgn n * k) qe"
        using k0 False by (simp add: r)
      ultimately show ?thesis
        by (simp only: fmag_le_Finite)
    qed
  qed
qed

lemma fmag_leE:
  assumes "fmag_le x k"
  obtains m e where "x = Finite m e" "\<bar>of_int m\<bar> * 2 powi e \<le> (2::rat) powi k"
  using assms by (cases x) (simp_all add: fmag_le_Finite, simp_all add: fmag_le_def)

lemma fmag_le_mono: "fmag_le x j \<Longrightarrow> j \<le> k \<Longrightarrow> fmag_le x k"
proof -
  assume a: "fmag_le x j" "j \<le> k"
  from a(1) obtain m e where x: "x = Finite m e" and b: "\<bar>of_int m\<bar> * 2 powi e \<le> (2::rat) powi j"
    by (rule fmag_leE)
  from a(2) have "(2::rat) powi j \<le> 2 powi k"
    by (rule powi_mono)
  with b have "\<bar>of_int m\<bar> * 2 powi e \<le> (2::rat) powi k"
    by (rule order_trans)
  then show ?thesis
    by (simp only: x fmag_le_Finite)
qed

lemma float_of_int_bounded:
  assumes "\<bar>i\<bar> \<le> 2 ^ k" "int k \<le> 127"
  shows "fmag_le (float_of_int i) (int k)"
  unfolding float_of_int_def
proof (rule rnd_bounded)
  show "(0::int) < 1"
    by simp
  have "(of_int \<bar>i\<bar> :: rat) \<le> of_int (2 ^ k)"
    using assms(1) by (simp only: of_int_le_iff)
  then show "\<bar>of_int i / of_int 1 * 2 powi 0\<bar> \<le> (2::rat) powi int k"
    by simp
  show "int k \<le> 127"
    by (rule assms(2))
qed

lemma fneg_bounded: "fmag_le x k \<Longrightarrow> fmag_le (fneg x) k"
  by (erule fmag_leE) (simp add: fmag_le_Finite)

lemma exact_shift:
  assumes "e \<le> e1"
  shows "(of_int (m * 2 ^ nat (e1 - e)) :: rat) * 2 powi e = of_int m * 2 powi e1"
proof -
  have "(of_int (2 ^ nat (e1 - e)) :: rat) = 2 powi (e1 - e)"
    using assms by (intro pow_nat_powi) simp
  moreover have "(2::rat) powi (e1 - e) * 2 powi e = 2 powi e1"
    using powi_add [of "e1 - e" e] by simp
  ultimately show ?thesis
    by (simp add: mult.assoc)
qed

lemma fadd_bounded:
  assumes "fmag_le x j" "fmag_le y j" "j < 127"
  shows "fmag_le (fadd x y) (j + 1)"
proof -
  from assms(1) obtain m1 e1 where x: "x = Finite m1 e1"
    and b1: "\<bar>of_int m1\<bar> * 2 powi e1 \<le> (2::rat) powi j"
    by (rule fmag_leE)
  from assms(2) obtain m2 e2 where y: "y = Finite m2 e2"
    and b2: "\<bar>of_int m2\<bar> * 2 powi e2 \<le> (2::rat) powi j"
    by (rule fmag_leE)
  define e where "e = min e1 e2"
  define n where "n = m1 * 2 ^ nat (e1 - e) + m2 * 2 ^ nat (e2 - e)"
  have f: "fadd x y = rnd n 1 e"
    by (simp add: x y Let_def n_def e_def)
  have v: "(of_int n :: rat) * 2 powi e = of_int m1 * 2 powi e1 + of_int m2 * 2 powi e2"
  proof -
    have "(of_int n :: rat) * 2 powi e
        = of_int (m1 * 2 ^ nat (e1 - e)) * 2 powi e + of_int (m2 * 2 ^ nat (e2 - e)) * 2 powi e"
      by (simp add: n_def distrib_right)
    also have "\<dots> = of_int m1 * 2 powi e1 + of_int m2 * 2 powi e2"
    proof -
      have s1: "(of_int (m1 * 2 ^ nat (e1 - e)) :: rat) * 2 powi e = of_int m1 * 2 powi e1"
        by (rule exact_shift) (simp add: e_def)
      have s2: "(of_int (m2 * 2 ^ nat (e2 - e)) :: rat) * 2 powi e = of_int m2 * 2 powi e2"
        by (rule exact_shift) (simp add: e_def)
      show ?thesis
        by (simp only: s1 s2)
    qed
    finally show ?thesis .
  qed
  have p: "\<bar>(of_int m :: rat) * 2 powi q\<bar> = \<bar>of_int m\<bar> * 2 powi q" for m q
    by (simp add: abs_mult)
  have "\<bar>(of_int n :: rat) * 2 powi e\<bar> \<le> \<bar>of_int m1 * 2 powi e1\<bar> + \<bar>of_int m2 * 2 powi e2\<bar>"
    unfolding v by (rule abs_triangle_ineq)
  also have "\<dots> \<le> 2 powi j + 2 powi j"
    unfolding p using b1 b2 by (rule add_mono)
  also have "\<dots> = 2 powi (j + 1)"
    using powi_add [of j 1] by simp
  finally have "\<bar>of_int n / of_int 1 * 2 powi e\<bar> \<le> (2::rat) powi (j + 1)"
    by simp
  with _ have "fmag_le (rnd n 1 e) (j + 1)"
    by (rule rnd_bounded) (use assms(3) in simp_all)
  then show ?thesis
    by (simp only: f)
qed

lemma fsub_bounded:
  "fmag_le x j \<Longrightarrow> fmag_le y j \<Longrightarrow> j < 127 \<Longrightarrow> fmag_le (fsub x y) (j + 1)"
  unfolding fsub_def by (intro fadd_bounded fneg_bounded)

lemma fmul_bounded:
  assumes "fmag_le x j" "fmag_le y k" "j + k \<le> 127"
  shows "fmag_le (fmul x y) (j + k)"
proof -
  from assms(1) obtain m1 e1 where x: "x = Finite m1 e1"
    and b1: "\<bar>of_int m1\<bar> * 2 powi e1 \<le> (2::rat) powi j"
    by (rule fmag_leE)
  from assms(2) obtain m2 e2 where y: "y = Finite m2 e2"
    and b2: "\<bar>of_int m2\<bar> * 2 powi e2 \<le> (2::rat) powi k"
    by (rule fmag_leE)
  have "\<bar>(of_int (m1 * m2) :: rat) / of_int 1 * 2 powi (e1 + e2)\<bar>
      = (\<bar>of_int m1\<bar> * 2 powi e1) * (\<bar>of_int m2\<bar> * 2 powi e2)"
    using powi_add [of e1 e2] by (simp add: abs_mult)
  also have "\<dots> \<le> 2 powi j * 2 powi k"
    using b1 b2 by (intro mult_mono) simp_all
  also have "\<dots> = 2 powi (j + k)"
    using powi_add [of j k] by simp
  finally have "fmag_le (rnd (m1 * m2) 1 (e1 + e2)) (j + k)"
    by (intro rnd_bounded) (use assms(3) in simp_all)
  then show ?thesis
    by (simp add: x y)
qed

lemma fdiv_bounded:
  assumes "fmag_le x j" "c = Finite m2 e2" "(2::rat) powi p \<le> \<bar>of_int m2\<bar> * 2 powi e2"
    "j - p \<le> 127"
  shows "fmag_le (fdiv x c) (j - p)"
proof -
  from assms(1) obtain m1 e1 where x: "x = Finite m1 e1"
    and b1: "\<bar>of_int m1\<bar> * 2 powi e1 \<le> (2::rat) powi j"
    by (rule fmag_leE)
  have m2: "m2 \<noteq> 0"
  proof
    assume "m2 = 0"
    with assms(3) have "(2::rat) powi p \<le> 0"
      by simp
    moreover have "0 < (2::rat) powi p"
      by simp
    ultimately show False
      by simp
  qed
  then have a2: "0 < \<bar>m2\<bar>"
    by simp
  have f: "fdiv x c = rnd (m1 * sgn m2) \<bar>m2\<bar> (e1 - e2)"
    using m2 by (simp add: x assms(2))
  have pos: "0 < \<bar>(of_int m2 :: rat)\<bar> * 2 powi e2"
    using m2 by simp
  have s: "\<bar>(of_int (sgn m2) :: rat)\<bar> = 1"
  proof -
    have "\<bar>sgn m2\<bar> = 1"
      using m2 by (simp add: abs_sgn_eq)
    then have "(of_int \<bar>sgn m2\<bar> :: rat) = of_int 1"
      by (simp only:)
    then show ?thesis
      by (simp only: of_int_abs of_int_1)
  qed
  have "\<bar>(of_int (m1 * sgn m2) :: rat) / of_int \<bar>m2\<bar> * 2 powi (e1 - e2)\<bar>
      = (\<bar>of_int m1\<bar> * 2 powi e1) / (\<bar>of_int m2\<bar> * 2 powi e2)"
    using powi_add [of e1 "- e2"] s by (simp add: abs_mult power_int_minus divide_simps)
  also have "\<dots> \<le> 2 powi j / (\<bar>of_int m2\<bar> * 2 powi e2)"
    using b1 pos by (simp add: divide_right_mono)
  also have "\<dots> \<le> 2 powi j / 2 powi p"
  proof (rule divide_left_mono)
    show "(2::rat) powi p \<le> \<bar>of_int m2\<bar> * 2 powi e2"
      by (rule assms(3))
    show "0 \<le> (2::rat) powi j"
      by simp
    show "0 < \<bar>(of_int m2 :: rat)\<bar> * 2 powi e2 * 2 powi p"
      using pos by (rule mult_pos_pos) simp
  qed
  also have "\<dots> = 2 powi (j - p)"
    using powi_add [of j "- p"] by (simp add: power_int_minus divide_inverse)
  finally have "fmag_le (rnd (m1 * sgn m2) \<bar>m2\<bar> (e1 - e2)) (j - p)"
    using a2 by (intro rnd_bounded) (use assms(4) in simp_all)
  then show ?thesis
    by (simp only: f)
qed

lemma float_constants:
  "float_of_int 16384 = Finite 8388608 (- 9)"
  "float_of_int 1024 = Finite 8388608 (- 13)"
  "float_of_int 131072 = Finite 8388608 (- 6)"
  "float_of_int 8192 = Finite 8388608 (- 10)"
  "float_of_int 5120 = Finite 10485760 (- 11)"
  by code_simp+

lemma fdiv_constants:
  assumes "fmag_le x j" "j \<le> 127"
  shows "fmag_le (fdiv x (float_of_int 16384)) (j - 14)"
    and "fmag_le (fdiv x (float_of_int 1024)) (j - 10)"
    and "fmag_le (fdiv x (float_of_int 131072)) (j - 17)"
    and "fmag_le (fdiv x (float_of_int 8192)) (j - 13)"
    and "fmag_le (fdiv x (float_of_int 5120)) (j - 12)"
proof -
  show "fmag_le (fdiv x (float_of_int 16384)) (j - 14)"
    using assms(1) float_constants(1) by (rule fdiv_bounded) (use assms(2) in simp_all)
  show "fmag_le (fdiv x (float_of_int 1024)) (j - 10)"
    using assms(1) float_constants(2) by (rule fdiv_bounded) (use assms(2) in simp_all)
  show "fmag_le (fdiv x (float_of_int 131072)) (j - 17)"
    using assms(1) float_constants(3) by (rule fdiv_bounded) (use assms(2) in simp_all)
  show "fmag_le (fdiv x (float_of_int 8192)) (j - 13)"
    using assms(1) float_constants(4) by (rule fdiv_bounded) (use assms(2) in simp_all)
  show "fmag_le (fdiv x (float_of_int 5120)) (j - 12)"
    using assms(1) float_constants(5) by (rule fdiv_bounded) (use assms(2) in simp_all)
qed

lemma int32_of_float_defined:
  assumes "fmag_le x k" "0 \<le> k" "k \<le> 30"
  shows "\<exists>w. int32_of_float x = Some w \<and> \<bar>sint w\<bar> \<le> 2 ^ nat k"
proof -
  from assms(1) obtain m e where x: "x = Finite m e"
    and b: "\<bar>of_int m\<bar> * 2 powi e \<le> (2::rat) powi k"
    by (rule fmag_leE)
  define t where "t = (if 0 \<le> e then m * 2 ^ nat e else sgn m * (\<bar>m\<bar> div 2 ^ nat (- e)))"
  have k: "(2::rat) powi k = of_int (2 ^ nat k)"
    using assms(2) pow_nat_powi [of k] by simp
  have t: "\<bar>t\<bar> \<le> 2 ^ nat k"
  proof (cases "0 \<le> e")
    case True
    then have "(of_int \<bar>t\<bar> :: rat) = \<bar>of_int m\<bar> * 2 powi e"
      using pow_nat_powi [of e] by (simp add: t_def abs_mult)
    with b have "(of_int \<bar>t\<bar> :: rat) \<le> of_int (2 ^ nat k)"
      by (simp only: k)
    then show ?thesis
      by (simp only: of_int_le_iff)
  next
    case False
    define q where "q = \<bar>m\<bar> div 2 ^ nat (- e)"
    have q0: "0 \<le> q"
      by (simp add: q_def pos_imp_zdiv_nonneg_iff)
    have "\<bar>t\<bar> = \<bar>sgn m\<bar> * q"
      using False q0 by (simp add: t_def q_def abs_mult)
    also have "\<dots> \<le> q"
      using q0 by (cases "m = 0") (simp_all add: abs_sgn_eq)
    finally have tq: "\<bar>t\<bar> \<le> q" .
    have "\<bar>m\<bar> = q * 2 ^ nat (- e) + \<bar>m\<bar> mod 2 ^ nat (- e)"
      unfolding q_def by (rule div_mult_mod_eq [symmetric])
    moreover have "0 \<le> \<bar>m\<bar> mod 2 ^ nat (- e)"
      by simp
    ultimately have "q * 2 ^ nat (- e) \<le> \<bar>m\<bar>"
      by linarith
    then have "(of_int (q * 2 ^ nat (- e)) :: rat) \<le> of_int \<bar>m\<bar>"
      by (simp only: of_int_le_iff)
    then have "(of_int q :: rat) * 2 ^ nat (- e) \<le> \<bar>of_int m\<bar>"
      by simp
    then have "(of_int q :: rat) \<le> \<bar>of_int m\<bar> / 2 ^ nat (- e)"
      by (simp add: pos_le_divide_eq)
    also have "\<dots> = \<bar>of_int m\<bar> * 2 powi e"
      using False inv_powi [of e] by simp
    also have "\<dots> \<le> of_int (2 ^ nat k)"
      using b by (simp only: k)
    finally have "q \<le> 2 ^ nat k"
      by (simp only: of_int_le_iff)
    with tq show ?thesis
      by simp
  qed
  have "(2::int) ^ nat k \<le> 2 ^ 30"
    using assms(3) by (intro power_increasing) simp_all
  with t have r: "- (2 ^ 31) \<le> t" "t < 2 ^ 31"
    by simp_all
  have g: "sint (word_of_int t :: 32 word) = signed_take_bit 31 t"
    by (simp add: signed_of_int)
  have "signed_take_bit 31 t = t"
    using r by (rule signed_take_bit_int_eq_self)
  with g have s: "sint (word_of_int t :: 32 word) = t"
    by simp
  have "int32_of_float x = Some (word_of_int t)"
    using r by (simp add: x t_def Let_def)
  with s t show ?thesis
    by simp
qed

lemma T_sum_bounded:
  assumes "\<bar>sint adc_T\<bar> \<le> 2 ^ 20"
  shows "fmag_le (bmp280_T_sum cal adc_T) 24"
proof -
  have a: "fmag_le (float_of_int (sint adc_T)) 20"
    using float_of_int_bounded [of "sint adc_T" 20] assms by simp
  have u: "\<bar>uint (w :: 16 word)\<bar> \<le> 2 ^ 16" for w
    using uint_lt2p [of w] by simp
  have s: "\<bar>sint (w :: 16 word)\<bar> \<le> 2 ^ 15" for w
    using sint_ge [of w] sint_lt [of w] by simp
  have t1: "fmag_le (float_of_int (uint (dig_T1 cal))) 16"
    using float_of_int_bounded [of "uint (dig_T1 cal)" 16] u by simp
  have t2: "fmag_le (float_of_int (sint (dig_T2 cal))) 15"
    using float_of_int_bounded [of "sint (dig_T2 cal)" 15] s by simp
  have t3: "fmag_le (float_of_int (sint (dig_T3 cal))) 15"
    using float_of_int_bounded [of "sint (dig_T3 cal)" 15] s by simp
  have a1: "fmag_le (fdiv (float_of_int (sint adc_T)) (float_of_int 16384)) 6"
    using fdiv_constants(1) [OF a] by simp
  have b1: "fmag_le (fdiv (float_of_int (uint (dig_T1 cal))) (float_of_int 1024)) 6"
    using fdiv_constants(2) [OF t1] by simp
  have d1: "fmag_le (fsub (fdiv (float_of_int (sint adc_T)) (float_of_int 16384))
      (fdiv (float_of_int (uint (dig_T1 cal))) (float_of_int 1024))) 7"
    using fsub_bounded [OF a1 b1] by simp
  have v1: "fmag_le (fmul (fsub (fdiv (float_of_int (sint adc_T)) (float_of_int 16384))
      (fdiv (float_of_int (uint (dig_T1 cal))) (float_of_int 1024)))
      (float_of_int (sint (dig_T2 cal)))) 22"
    using fmul_bounded [OF d1 t2] by simp
  have a2: "fmag_le (fdiv (float_of_int (sint adc_T)) (float_of_int 131072)) 3"
    using fdiv_constants(3) [OF a] by simp
  have b2: "fmag_le (fdiv (float_of_int (uint (dig_T1 cal))) (float_of_int 8192)) 3"
    using fdiv_constants(4) [OF t1] by simp
  have d2: "fmag_le (fsub (fdiv (float_of_int (sint adc_T)) (float_of_int 131072))
      (fdiv (float_of_int (uint (dig_T1 cal))) (float_of_int 8192))) 4"
    using fsub_bounded [OF a2 b2] by simp
  have q2: "fmag_le (fmul (fsub (fdiv (float_of_int (sint adc_T)) (float_of_int 131072))
        (fdiv (float_of_int (uint (dig_T1 cal))) (float_of_int 8192)))
      (fsub (fdiv (float_of_int (sint adc_T)) (float_of_int 131072))
        (fdiv (float_of_int (uint (dig_T1 cal))) (float_of_int 8192)))) 8"
    using fmul_bounded [OF d2 d2] by simp
  have v2: "fmag_le (fmul (fmul (fsub (fdiv (float_of_int (sint adc_T)) (float_of_int 131072))
        (fdiv (float_of_int (uint (dig_T1 cal))) (float_of_int 8192)))
      (fsub (fdiv (float_of_int (sint adc_T)) (float_of_int 131072))
        (fdiv (float_of_int (uint (dig_T1 cal))) (float_of_int 8192))))
      (float_of_int (sint (dig_T3 cal)))) 23"
    using fmul_bounded [OF q2 t3] by simp
  have v1': "fmag_le (fmul (fsub (fdiv (float_of_int (sint adc_T)) (float_of_int 16384))
      (fdiv (float_of_int (uint (dig_T1 cal))) (float_of_int 1024)))
      (float_of_int (sint (dig_T2 cal)))) 23"
    using v1 by (rule fmag_le_mono) simp
  show ?thesis
    unfolding bmp280_T_sum_def Let_def
    using fadd_bounded [OF v1' v2] by simp
qed

section \<open>Single-precision arithmetic: rounding to nearest\<close>

lemma bitlen_bounds:
  "0 < a \<Longrightarrow> 0 < bitlen a \<and> 2 ^ nat (bitlen a - 1) \<le> a \<and> a < 2 ^ nat (bitlen a)"
proof (induction a rule: bitlen.induct)
  case (1 a)
  show ?case
  proof (cases "a = 1")
    case True
    have "bitlen 0 = 0"
      by (simp add: bitlen.simps)
    then have "bitlen 1 = 1"
      by (simp add: bitlen.simps [of 1])
    with True show ?thesis
      by simp
  next
    case False
    with "1.prems" have h: "0 < a div 2"
      by simp
    from "1.prems" have "\<not> a \<le> 0"
      by simp
    from "1.IH" [OF this h] have ih: "0 < bitlen (a div 2)"
      "2 ^ nat (bitlen (a div 2) - 1) \<le> a div 2" "a div 2 < 2 ^ nat (bitlen (a div 2))"
      by simp_all
    have b: "bitlen a = 1 + bitlen (a div 2)"
      using "1.prems" by (simp add: bitlen.simps [of a])
    have n: "nat (bitlen (a div 2)) = Suc (nat (bitlen (a div 2) - 1))"
      using ih(1) by simp
    have lo: "2 * 2 ^ nat (bitlen (a div 2) - 1) \<le> a"
      using ih(2) by simp
    have hi: "a < 2 * 2 ^ nat (bitlen (a div 2))"
      using ih(3) by simp
    have "nat (bitlen a) = Suc (nat (bitlen (a div 2)))"
      using ih(1) b by simp
    moreover have "nat (bitlen a - 1) = nat (bitlen (a div 2))"
      using b by simp
    ultimately show ?thesis
      using lo hi ih(1) b n by simp
  qed
qed

lemma bitlen_powi:
  assumes "0 < a"
  shows "(2::rat) powi (bitlen a - 1) \<le> of_int a" and "(of_int a :: rat) < 2 powi bitlen a"
proof -
  from bitlen_bounds [OF assms]
  have p: "0 < bitlen a" and lo: "2 ^ nat (bitlen a - 1) \<le> a" and hi: "a < 2 ^ nat (bitlen a)"
    by simp_all
  have e1: "(of_int (2 ^ nat (bitlen a - 1)) :: rat) = 2 powi (bitlen a - 1)"
    using p by (intro pow_nat_powi) simp
  have e2: "(of_int (2 ^ nat (bitlen a)) :: rat) = 2 powi bitlen a"
    using p by (intro pow_nat_powi) simp
  have "(of_int (2 ^ nat (bitlen a - 1)) :: rat) \<le> of_int a"
    using lo by (simp only: of_int_le_iff)
  then show "(2::rat) powi (bitlen a - 1) \<le> of_int a"
    by (simp only: e1)
  have "(of_int a :: rat) < of_int (2 ^ nat (bitlen a))"
    using hi by (simp only: of_int_less_iff)
  then show "(of_int a :: rat) < 2 powi bitlen a"
    by (simp only: e2)
qed

lemma ilog2_test:
  assumes "0 < d"
  shows "d * 2 ^ nat k \<le> a * 2 ^ nat (- k) \<longleftrightarrow> (2::rat) powi k \<le> of_int a / of_int d"
proof -
  have "d * 2 ^ nat k \<le> a * 2 ^ nat (- k)
      \<longleftrightarrow> (of_int (d * 2 ^ nat k) :: rat) \<le> of_int (a * 2 ^ nat (- k))"
    by (simp only: of_int_le_iff)
  also have "\<dots> \<longleftrightarrow> (of_int d :: rat) * (of_int (2 ^ nat k) / of_int (2 ^ nat (- k))) \<le> of_int a"
    by (simp add: pos_le_divide_eq [symmetric] pos_divide_le_eq mult.commute)
  also have "\<dots> \<longleftrightarrow> (of_int d :: rat) * 2 powi k \<le> of_int a"
    by (simp only: shift_ratio)
  also have "\<dots> \<longleftrightarrow> (2::rat) powi k \<le> of_int a / of_int d"
    using assms by (simp add: pos_le_divide_eq mult.commute)
  finally show ?thesis .
qed

text \<open>\<open>ilog2 a d\<close> is the exponent of the binade of \<open>a / d\<close>.\<close>

lemma ilog2_bounds:
  assumes "0 < a" "0 < d"
  shows "(2::rat) powi ilog2 a d \<le> of_int a / of_int d"
    and "(of_int a :: rat) / of_int d < 2 powi (ilog2 a d + 1)"
proof -
  define k where "k = bitlen a - bitlen d"
  have d0: "0 < (of_int d :: rat)"
    using assms(2) by simp
  have lo: "(2::rat) powi (k - 1) \<le> of_int a / of_int d"
  proof -
    have "k - 1 = (bitlen a - 1) + (- bitlen d)"
      by (simp add: k_def)
    then have "(2::rat) powi (k - 1) = 2 powi (bitlen a - 1) * 2 powi (- bitlen d)"
      by (simp only: powi_add)
    also have "\<dots> = 2 powi (bitlen a - 1) / 2 powi bitlen d"
      by (simp only: power_int_minus divide_inverse)
    finally have "(2::rat) powi (k - 1) = 2 powi (bitlen a - 1) / 2 powi bitlen d" .
    also have "\<dots> \<le> of_int a / 2 powi bitlen d"
      using bitlen_powi(1) [OF assms(1)] by (simp add: divide_right_mono)
    also have "\<dots> \<le> of_int a / of_int d"
    proof (rule divide_left_mono)
      show "(of_int d :: rat) \<le> 2 powi bitlen d"
        using bitlen_powi(2) [OF assms(2)] by simp
      show "0 \<le> (of_int a :: rat)"
        using assms(1) by simp
      show "0 < (2::rat) powi bitlen d * of_int d"
        using d0 by simp
    qed
    finally show ?thesis .
  qed
  have hi: "(of_int a :: rat) / of_int d < 2 powi (k + 1)"
  proof -
    have "(of_int a :: rat) / of_int d < 2 powi bitlen a / of_int d"
      using bitlen_powi(2) [OF assms(1)] d0 by (simp add: divide_strict_right_mono)
    also have "\<dots> \<le> 2 powi bitlen a / 2 powi (bitlen d - 1)"
    proof (rule divide_left_mono)
      show "(2::rat) powi (bitlen d - 1) \<le> of_int d"
        by (rule bitlen_powi(1) [OF assms(2)])
      show "0 \<le> (2::rat) powi bitlen a"
        by simp
      show "0 < (of_int d :: rat) * 2 powi (bitlen d - 1)"
        using d0 by simp
    qed
    also have "\<dots> = 2 powi bitlen a * 2 powi (- (bitlen d - 1))"
      by (simp only: power_int_minus divide_inverse)
    also have "\<dots> = 2 powi (bitlen a + (- (bitlen d - 1)))"
      by (simp only: powi_add)
    also have "bitlen a + (- (bitlen d - 1)) = k + 1"
      by (simp add: k_def)
    finally show ?thesis .
  qed
  have t: "ilog2 a d = (if (2::rat) powi k \<le> of_int a / of_int d then k else k - 1)"
    unfolding ilog2_def Let_def k_def [symmetric] ilog2_test [OF assms(2)] by (rule refl)
  show "(2::rat) powi ilog2 a d \<le> of_int a / of_int d"
    using lo by (simp add: t)
  show "(of_int a :: rat) / of_int d < 2 powi (ilog2 a d + 1)"
    using hi by (simp add: t not_le)
qed

lemma round_even_nearest:
  assumes "0 < den"
  shows "\<bar>(of_int (round_even num den) :: rat) - of_int num / of_int den\<bar> \<le> 1 / 2"
proof -
  define k where "k = num div den"
  define r where "r = num mod den"
  have r: "0 \<le> r" "r < den"
    using assms by (simp_all add: r_def)
  have d: "0 < (of_int den :: rat)"
    using assms by simp
  have "num = k * den + r"
    by (simp add: k_def r_def)
  then have "(of_int num :: rat) = of_int k * of_int den + of_int r"
    by (simp only: of_int_add of_int_mult)
  then have q: "(of_int num :: rat) / of_int den = of_int k + of_int r / of_int den"
    using d by (simp add: field_simps)
  consider "2 * r < den" | "den < 2 * r" | "2 * r = den"
    by linarith
  then show ?thesis
  proof cases
    case 1
    then have "round_even num den = k"
      by (simp add: round_even_def Let_def k_def r_def)
    moreover have "(of_int (2 * r) :: rat) \<le> of_int den"
      using 1 by (simp only: of_int_le_iff)
    then have "(of_int r :: rat) / of_int den \<le> 1 / 2"
      using d by (simp add: field_simps)
    moreover have "0 \<le> (of_int r :: rat) / of_int den"
      using r d by simp
    ultimately show ?thesis
      by (simp add: q)
  next
    case 2
    then have "round_even num den = k + 1"
      by (simp add: round_even_def Let_def k_def r_def)
    moreover have "(of_int den :: rat) \<le> of_int (2 * r)"
      using 2 by (simp only: of_int_le_iff)
    then have "1 / 2 \<le> (of_int r :: rat) / of_int den"
      using d by (simp add: field_simps)
    moreover have "(of_int r :: rat) / of_int den \<le> 1"
      using r d by (simp add: field_simps)
    ultimately show ?thesis
      by (simp add: q)
  next
    case 3
    then have "(of_int (2 * r) :: rat) = of_int den"
      by (simp only:)
    then have h: "(of_int r :: rat) / of_int den = 1 / 2"
      using d by (simp add: field_simps)
    have "round_even num den = k \<or> round_even num den = k + 1"
      by (simp add: round_even_def Let_def k_def r_def)
    then show ?thesis
      by (auto simp: q h)
  qed
qed

lemma round_even_tie: "2 * (num mod den) = den \<Longrightarrow> even (round_even num den)"
  by (simp add: round_even_def Let_def)

text \<open>
  The exact value lies in the binade that \<open>rnd\<close> takes the exponent from, and a finite
  result is within half a unit in the last place of the exact value: \<open>rnd\<close> rounds to
  nearest, with 24 significant bits above the subnormal range.
\<close>

lemma rnd_binade:
  assumes "n \<noteq> 0" "0 < d"
  shows "(2::rat) powi (e + ilog2 \<bar>n\<bar> d) \<le> \<bar>of_int n / of_int d * 2 powi e\<bar>"
    and "\<bar>(of_int n :: rat) / of_int d * 2 powi e\<bar> < 2 powi (e + ilog2 \<bar>n\<bar> d + 1)"
proof -
  have a: "0 < \<bar>n\<bar>"
    using assms(1) by simp
  have x: "\<bar>(of_int n :: rat) / of_int d * 2 powi e\<bar> = of_int \<bar>n\<bar> / of_int d * 2 powi e"
    using assms(2) by (simp add: abs_mult)
  have "(2::rat) powi (e + ilog2 \<bar>n\<bar> d) = 2 powi ilog2 \<bar>n\<bar> d * 2 powi e"
    using powi_add [of "ilog2 \<bar>n\<bar> d" e] by (simp add: add.commute)
  also have "\<dots> \<le> of_int \<bar>n\<bar> / of_int d * 2 powi e"
    using ilog2_bounds(1) [OF a assms(2)] by (rule mult_right_mono) simp
  finally show "(2::rat) powi (e + ilog2 \<bar>n\<bar> d) \<le> \<bar>of_int n / of_int d * 2 powi e\<bar>"
    by (simp only: x)
  have "(of_int \<bar>n\<bar> :: rat) / of_int d * 2 powi e < 2 powi (ilog2 \<bar>n\<bar> d + 1) * 2 powi e"
    using ilog2_bounds(2) [OF a assms(2)] by (rule mult_strict_right_mono) simp
  also have "\<dots> = 2 powi (e + ilog2 \<bar>n\<bar> d + 1)"
    using powi_add [of "ilog2 \<bar>n\<bar> d + 1" e] by (simp add: add.commute add.left_commute)
  finally show "\<bar>(of_int n :: rat) / of_int d * 2 powi e\<bar> < 2 powi (e + ilog2 \<bar>n\<bar> d + 1)"
    by (simp only: x)
qed

lemma rnd_nearest:
  assumes d: "0 < d" and f: "rnd n d e = Finite m q"
  shows "\<bar>valof (Finite m q) - of_int n / of_int d * 2 powi e\<bar>
      \<le> 2 powi (max (e + ilog2 \<bar>n\<bar> d) (- 126) - 24)"
proof (cases "n = 0")
  case True
  with f have "m = 0"
    by (simp add: rnd_def)
  with True show ?thesis
    by simp
next
  case False
  define a where "a = \<bar>n\<bar>"
  define qe where "qe = max (e + ilog2 a d) (- 126) - 23"
  define num where "num = a * 2 ^ nat (e - qe)"
  define den where "den = d * 2 ^ nat (qe - e)"
  define k where "k = round_even num den"
  have den_pos: "0 < den"
    using d by (simp add: den_def)
  have ratio: "(of_int num :: rat) / of_int den = of_int a / of_int d * 2 powi (e - qe)"
  proof -
    have "(of_int num :: rat) / of_int den
        = (of_int a / of_int d) * (of_int (2 ^ nat (e - qe)) / of_int (2 ^ nat (- (e - qe))))"
      by (simp add: num_def den_def)
    then show ?thesis
      by (simp only: shift_ratio)
  qed
  have r: "rnd n d e = (if 2 ^ 277 \<le> k * 2 ^ nat (qe + 149) then (if 0 < n then PInf else NInf)
      else if k = 0 then Finite 0 0
      else if k = 2 ^ 24 then Finite (sgn n * 2 ^ 23) (qe + 1) else Finite (sgn n * k) qe)"
    unfolding rnd_def Let_def k_def num_def den_def qe_def a_def
    by (simp only: False if_False)
  have p1: "(2::rat) powi (qe + 1) = 2 powi qe * 2"
    using powi_add [of qe 1] by simp
  have v: "valof (Finite m q) = of_int (sgn n) * of_int k * 2 powi qe"
  proof (cases "2 ^ 277 \<le> k * 2 ^ nat (qe + 149)")
    case True
    with f r show ?thesis
      by (simp split: if_splits)
  next
    case no: False
    show ?thesis
    proof (cases "k = 0")
      case True
      with f r no have "m = 0"
        by simp
      with True show ?thesis
        by (simp add: valof_powi)
    next
      case k0: False
      show ?thesis
      proof (cases "k = 2 ^ 24")
        case True
        with f r no k0 have "m = sgn n * 2 ^ 23" "q = qe + 1"
          by simp_all
        then have "valof (Finite m q) = of_int (sgn n * 2 ^ 23) * 2 powi (qe + 1)"
          by (simp only: valof_powi)
        also have "\<dots> = of_int (sgn n) * of_int k * 2 powi qe"
          by (simp add: True p1)
        finally show ?thesis .
      next
        case False
        with f r no k0 have "m = sgn n * k" "q = qe"
          by simp_all
        then have "valof (Finite m q) = of_int (sgn n * k) * 2 powi qe"
          by (simp only: valof_powi)
        then show ?thesis
          by simp
      qed
    qed
  qed
  have n: "(of_int n :: rat) = of_int (sgn n) * of_int a"
  proof -
    have "n = sgn n * a"
      unfolding a_def by (rule sgn_mult_abs [symmetric])
    then have "(of_int n :: rat) = of_int (sgn n * a)"
      by (simp only:)
    then show ?thesis
      by (simp only: of_int_mult)
  qed
  have y: "(of_int a :: rat) / of_int d * 2 powi e = (of_int num / of_int den) * 2 powi qe"
    using powi_add [of "e - qe" qe] by (simp add: ratio mult.assoc)
  have "(of_int n :: rat) / of_int d * 2 powi e
      = of_int (sgn n) * (of_int a / of_int d * 2 powi e)"
    by (simp only: n mult.assoc [symmetric] times_divide_eq_right)
  then have x: "(of_int n :: rat) / of_int d * 2 powi e
      = of_int (sgn n) * ((of_int num / of_int den) * 2 powi qe)"
    by (simp only: y)
  have s: "\<bar>(of_int (sgn n) :: rat)\<bar> = 1"
  proof -
    have "\<bar>sgn n\<bar> = 1"
      using False by (simp add: abs_sgn_eq)
    then have "(of_int \<bar>sgn n\<bar> :: rat) = of_int 1"
      by (simp only:)
    then show ?thesis
      by (simp only: of_int_abs of_int_1)
  qed
  have "valof (Finite m q) - of_int n / of_int d * 2 powi e
      = of_int (sgn n) * ((of_int k - of_int num / of_int den) * 2 powi qe)"
    by (simp only: v x) (simp add: algebra_simps)
  then have "\<bar>valof (Finite m q) - of_int n / of_int d * 2 powi e\<bar>
      = \<bar>(of_int k :: rat) - of_int num / of_int den\<bar> * 2 powi qe"
    by (simp only: abs_mult s) simp
  also have "\<dots> \<le> 1 / 2 * 2 powi qe"
    using round_even_nearest [OF den_pos, of num] by (intro mult_right_mono) (simp_all add: k_def)
  also have "\<dots> = 2 powi (qe - 1)"
    using powi_add [of "qe - 1" 1] by simp
  also have "qe - 1 = max (e + ilog2 \<bar>n\<bar> d) (- 126) - 24"
    by (simp add: qe_def a_def)
  finally show ?thesis .
qed

section \<open>Temperature compensation\<close>

lemma compensate_T_sum:
  "bmp280_compensate_T cal adc_T =
     (case int32_of_float (bmp280_T_sum cal adc_T) of
        None \<Rightarrow> None
      | Some tf \<Rightarrow> Some (fdiv (bmp280_T_sum cal adc_T) (float_of_int 5120), cal\<lparr>t_fine := tf\<rparr>))"
  unfolding bmp280_compensate_T_def bmp280_T_sum_def Let_def by (rule refl)

lemma T_sum_t_fine:
  "bmp280_T_sum (cal\<lparr>t_fine := x\<rparr>) adc_T = bmp280_T_sum cal adc_T"
  by (simp add: bmp280_T_sum_def)

lemma T_var1_ref:
  "fmul (fsub (fdiv (float_of_int 519888) (float_of_int 16384))
              (fdiv (float_of_int 27504) (float_of_int 1024)))
        (float_of_int 26435) = Finite 16485527 (- 7)"
  by code_simp

lemma T_var2_ref:
  "fmul (fmul (fsub (fdiv (float_of_int 519888) (float_of_int 131072))
                    (fdiv (float_of_int 27504) (float_of_int 8192)))
              (fsub (fdiv (float_of_int 519888) (float_of_int 131072))
                    (fdiv (float_of_int 27504) (float_of_int 8192))))
        (float_of_int (- 1000)) = Finite (- 12153379) (- 15)"
  by code_simp

lemma T_sum_ref_val:
  "fadd (Finite 16485527 (- 7)) (Finite (- 12153379) (- 15)) = Finite 16438053 (- 7)"
  by code_simp

lemma T_fine_ref: "int32_of_float (Finite 16438053 (- 7)) = Some 128422"
  by code_simp

lemma T_ref: "fdiv (Finite 16438053 (- 7)) (float_of_int 5120) = Finite 13150442 (- 19)"
  by code_simp

lemma T_sum_ref:
  assumes "dig_T1 cal = 27504" "dig_T2 cal = 26435" "dig_T3 cal = - 1000"
  shows "bmp280_T_sum cal 519888 = Finite 16438053 (- 7)"
  using assms
  apply (simp add: bmp280_T_sum_def Let_def)
  apply (simp only: T_var1_ref T_var2_ref T_sum_ref_val)
  done

text \<open>
  Claim C9. With \<open>dig_T1 = 27504\<close>, \<open>dig_T2 = 26435\<close>, \<open>dig_T3 = -1000\<close> and the raw
  temperature 519888, whatever the other coefficients and the old \<open>t_fine\<close> are,
  \<^verbatim>\<open>bmp280_compensate_T\<close> returns the binary32 number \<open>13150442 / 2 ^ 19\<close>, about 25.0825,
  which is within 0.01 of 25.08, and stores 128422 in \<open>t_fine\<close>: the integer part of the
  intermediate sum \<open>var1 + var2 = 128422 + 37 / 128\<close>, and the value of the data sheet's
  worked example.
\<close>

theorem compensate_T_reference:
  assumes "dig_T1 cal = 27504" "dig_T2 cal = 26435" "dig_T3 cal = - 1000"
  shows "bmp280_compensate_T cal 519888 = Some (Finite 13150442 (- 19), cal\<lparr>t_fine := 128422\<rparr>)
       \<and> \<bar>valof (Finite 13150442 (- 19)) - 2508 / 100\<bar> < 1 / 100
       \<and> bmp280_T_sum cal 519888 = Finite 16438053 (- 7)
       \<and> valof (Finite 16438053 (- 7)) = 128422 + 37 / 128
       \<and> int32_of_float (bmp280_T_sum cal 519888) = Some 128422"
proof -
  note s = T_sum_ref [OF assms]
  have c: "bmp280_compensate_T cal 519888 = Some (Finite 13150442 (- 19), cal\<lparr>t_fine := 128422\<rparr>)"
    unfolding compensate_T_sum s T_fine_ref T_ref by simp
  have v: "\<bar>valof (Finite 13150442 (- 19)) - 2508 / 100\<bar> < 1 / 100"
    by simp
  have w: "valof (Finite 16438053 (- 7)) = 128422 + 37 / 128"
    by simp
  from c v w s T_fine_ref show ?thesis
    by simp
qed

theorem compensate_T_reference_witness:
  "dig_T1 reference_cal = 27504 \<and> dig_T2 reference_cal = 26435 \<and> dig_T3 reference_cal = - 1000
   \<and> bmp280_compensate_T reference_cal 519888
       = Some (Finite 13150442 (- 19), reference_cal\<lparr>t_fine := 128422\<rparr>)
   \<and> int32_of_float (bmp280_T_sum reference_cal 519888) = Some 128422"
proof -
  have h: "dig_T1 reference_cal = 27504" "dig_T2 reference_cal = 26435"
    "dig_T3 reference_cal = - 1000"
    by (simp_all add: reference_cal_def)
  from compensate_T_reference [OF h] h show ?thesis
    by simp
qed

section \<open>Pressure compensation\<close>

lemma compensate_P_guard:
  "feq (bmp280_P_divisor cal) (float_of_int 0) \<Longrightarrow> bmp280_compensate_P cal adc_P = float_of_int 0"
  unfolding bmp280_compensate_P_def bmp280_P_divisor_def Let_def by simp

lemma zero_cal_divisor: "feq (bmp280_P_divisor (bmp280_cal driver_init)) (float_of_int 0)"
  by code_simp

lemma ref_cal_divisor:
  "\<not> feq (bmp280_P_divisor (reference_cal\<lparr>t_fine := 128422\<rparr>)) (float_of_int 0)"
  by code_simp

text \<open>
  The divisor can be zero although \<open>dig_P1\<close> is not: with \<open>dig_P3 = 0\<close>, \<open>dig_P2 = -32768\<close>
  and \<open>t_fine = 1176576\<close> the factor \<open>1 + var1 / 32768\<close> is zero.
\<close>

lemma zero_divisor_nonzero_P1:
  "feq (bmp280_P_divisor (reference_cal\<lparr>dig_P2 := - 32768, dig_P3 := 0, t_fine := 1176576\<rparr>))
     (float_of_int 0)"
  by code_simp

lemma float_constants_P:
  "float_of_int 2 = Finite 8388608 (- 22)"
  "float_of_int 524288 = Finite 8388608 (- 4)"
  "float_of_int 32768 = Finite 8388608 (- 8)"
  by code_simp+

lemma fdiv_constants_P:
  assumes "fmag_le x j" "j \<le> 127"
  shows "fmag_le (fdiv x (float_of_int 2)) (j - 1)"
    and "fmag_le (fdiv x (float_of_int 524288)) (j - 19)"
    and "fmag_le (fdiv x (float_of_int 32768)) (j - 15)"
proof -
  show "fmag_le (fdiv x (float_of_int 2)) (j - 1)"
    using assms(1) float_constants_P(1) by (rule fdiv_bounded) (use assms(2) in simp_all)
  show "fmag_le (fdiv x (float_of_int 524288)) (j - 19)"
    using assms(1) float_constants_P(2) by (rule fdiv_bounded) (use assms(2) in simp_all)
  show "fmag_le (fdiv x (float_of_int 32768)) (j - 15)"
    using assms(1) float_constants_P(3) by (rule fdiv_bounded) (use assms(2) in simp_all)
qed

lemma fmul_zero: "fmag_le x k \<Longrightarrow> fmul x (Finite 0 0) = Finite 0 0"
  by (erule fmag_leE) (simp add: rnd_def)

text \<open>
  With \<open>dig_P1 = 0\<close>, as in a calibration that was never loaded, the divisor is zero
  whatever the other coefficients and the fine temperature are: the factor it multiplies
  is finite, of magnitude at most \<open>2 ^ 26\<close>.
\<close>

lemma P_divisor_zero_P1:
  assumes "dig_P1 cal = 0"
  shows "bmp280_P_divisor cal = Finite 0 0"
proof -
  define v where "v = fsub (fdiv (float_of_int (sint (t_fine cal))) (float_of_int 2)) (float_of_int 64000)"
  have s32: "\<bar>sint (w :: 32 word)\<bar> \<le> 2 ^ 31" for w
    using sint_ge [of w] sint_lt [of w] by simp
  have s16: "\<bar>sint (w :: 16 word)\<bar> \<le> 2 ^ 15" for w
    using sint_ge [of w] sint_lt [of w] by simp
  have tf: "fmag_le (float_of_int (sint (t_fine cal))) 31"
    using float_of_int_bounded [of "sint (t_fine cal)" 31] s32 by simp
  have h: "fmag_le (fdiv (float_of_int (sint (t_fine cal))) (float_of_int 2)) 30"
    using fdiv_constants_P(1) [OF tf] by simp
  have c: "fmag_le (float_of_int 64000) 30"
    using float_of_int_bounded [of 64000 30] by simp
  have v: "fmag_le v 31"
    unfolding v_def using fsub_bounded [OF h c] by simp
  have p3: "fmag_le (float_of_int (sint (dig_P3 cal))) 15"
    using float_of_int_bounded [of "sint (dig_P3 cal)" 15] s16 by simp
  have p2: "fmag_le (float_of_int (sint (dig_P2 cal))) 15"
    using float_of_int_bounded [of "sint (dig_P2 cal)" 15] s16 by simp
  have a1: "fmag_le (fmul (float_of_int (sint (dig_P3 cal))) v) 46"
    using fmul_bounded [OF p3 v] by simp
  have a2: "fmag_le (fmul (fmul (float_of_int (sint (dig_P3 cal))) v) v) 77"
    using fmul_bounded [OF a1 v] by simp
  have a3: "fmag_le (fdiv (fmul (fmul (float_of_int (sint (dig_P3 cal))) v) v) (float_of_int 524288)) 58"
    using fdiv_constants_P(2) [OF a2] by simp
  have b1: "fmag_le (fmul (float_of_int (sint (dig_P2 cal))) v) 46"
    using fmul_bounded [OF p2 v] by simp
  then have b2: "fmag_le (fmul (float_of_int (sint (dig_P2 cal))) v) 58"
    by (rule fmag_le_mono) simp
  have s: "fmag_le (fadd (fdiv (fmul (fmul (float_of_int (sint (dig_P3 cal))) v) v) (float_of_int 524288))
      (fmul (float_of_int (sint (dig_P2 cal))) v)) 59"
    using fadd_bounded [OF a3 b2] by simp
  have w: "fmag_le (fdiv (fadd (fdiv (fmul (fmul (float_of_int (sint (dig_P3 cal))) v) v) (float_of_int 524288))
      (fmul (float_of_int (sint (dig_P2 cal))) v)) (float_of_int 524288)) 40"
    using fdiv_constants_P(2) [OF s] by simp
  have w2: "fmag_le (fdiv (fdiv (fadd (fdiv (fmul (fmul (float_of_int (sint (dig_P3 cal))) v) v) (float_of_int 524288))
      (fmul (float_of_int (sint (dig_P2 cal))) v)) (float_of_int 524288)) (float_of_int 32768)) 25"
    using fdiv_constants_P(3) [OF w] by simp
  have one: "fmag_le (float_of_int 1) 25"
    using float_of_int_bounded [of 1 25] by simp
  have f: "fmag_le (fadd (float_of_int 1) (fdiv (fdiv (fadd (fdiv (fmul (fmul (float_of_int (sint (dig_P3 cal))) v) v) (float_of_int 524288))
      (fmul (float_of_int (sint (dig_P2 cal))) v)) (float_of_int 524288)) (float_of_int 32768))) 26"
    using fadd_bounded [OF one w2] by simp
  show ?thesis
    unfolding bmp280_P_divisor_def Let_def v_def [symmetric]
    using fmul_zero [OF f] by (simp add: assms float_of_int_0)
qed

lemma compensate_P_zero_P1:
  "dig_P1 cal = 0 \<Longrightarrow> bmp280_compensate_P cal adc_P = Finite 0 0"
proof -
  assume "dig_P1 cal = 0"
  then have "bmp280_P_divisor cal = Finite 0 0"
    by (rule P_divisor_zero_P1)
  then have "feq (bmp280_P_divisor cal) (float_of_int 0)"
    by (simp add: float_of_int_0)
  then have "bmp280_compensate_P cal adc_P = float_of_int 0"
    unfolding bmp280_compensate_P_def bmp280_P_divisor_def Let_def by simp
  then show ?thesis
    by (simp add: float_of_int_0)
qed

text \<open>
  Claim C5. Whatever the calibration, the fine temperature in it and the raw pressure
  are: when the divisor \<^verbatim>\<open>var1\<close> compares equal to zero, \<^verbatim>\<open>bmp280_compensate_P\<close> returns
  exactly zero; and when it does not compare equal to zero, it is not a zero, so the
  division behind the test never has a zero denominator. In particular the result is
  zero for every calibration whose \<open>dig_P1\<close> is zero.
\<close>

theorem compensate_P_zero_divisor:
  "(feq (bmp280_P_divisor cal) (float_of_int 0) \<longrightarrow> bmp280_compensate_P cal adc_P = Finite 0 0)
   \<and> (\<not> feq (bmp280_P_divisor cal) (float_of_int 0) \<longrightarrow>
        (\<forall>e. bmp280_P_divisor cal \<noteq> Finite 0 e))
   \<and> (dig_P1 cal = 0 \<longrightarrow> bmp280_compensate_P cal adc_P = Finite 0 0)"
proof (intro conjI impI allI)
  assume "dig_P1 cal = 0"
  then show "bmp280_compensate_P cal adc_P = Finite 0 0"
    by (rule compensate_P_zero_P1)
next
  assume "feq (bmp280_P_divisor cal) (float_of_int 0)"
  then show "bmp280_compensate_P cal adc_P = Finite 0 0"
    by (simp add: compensate_P_guard float_of_int_0)
next
  fix e
  assume n: "\<not> feq (bmp280_P_divisor cal) (float_of_int 0)"
  show "bmp280_P_divisor cal \<noteq> Finite 0 e"
  proof
    assume "bmp280_P_divisor cal = Finite 0 e"
    with n show False
      by (simp add: feq_zero)
  qed
qed

theorem compensate_P_zero_divisor_witness:
  "feq (bmp280_P_divisor (bmp280_cal driver_init)) (float_of_int 0)
   \<and> bmp280_compensate_P (bmp280_cal driver_init) 415148 = Finite 0 0
   \<and> \<not> feq (bmp280_P_divisor (reference_cal\<lparr>t_fine := 128422\<rparr>)) (float_of_int 0)
   \<and> bmp280_P_divisor (reference_cal\<lparr>t_fine := 128422\<rparr>) \<noteq> Finite 0 0"
  using compensate_P_zero_divisor [of "bmp280_cal driver_init" 415148]
    compensate_P_zero_divisor [of "reference_cal\<lparr>t_fine := 128422\<rparr>" 415148]
    zero_cal_divisor ref_cal_divisor
  by simp

section \<open>The calculation\<close>

text \<open>
  \<^verbatim>\<open>bmp280_calculate\<close> in terms of the current frame alone: the fine temperature that
  the pressure formula reads is the one computed from \<open>bmp280_ut\<close> in the same call.
\<close>

lemma calculate_unfold:
  "bmp280_calculate s pressure temperature mem =
     (case int32_of_float (bmp280_T_sum (bmp280_cal s) (bmp280_ut s)) of
        None \<Rightarrow> None
      | Some tf \<Rightarrow>
          (case store_int32 pressure
                  (int32_of_float (bmp280_compensate_P ((bmp280_cal s)\<lparr>t_fine := tf\<rparr>) (bmp280_up s)))
                  mem of
             None \<Rightarrow> None
           | Some mem1 \<Rightarrow>
               (case store_int32 temperature
                       (Option.bind
                          (int32_of_float
                             (fdiv (bmp280_T_sum (bmp280_cal s) (bmp280_ut s)) (float_of_int 5120)))
                          (\<lambda>ti. mul_int32 ti 100))
                       mem1 of
                  None \<Rightarrow> None
                | Some mem2 \<Rightarrow> Some (s\<lparr>bmp280_cal := (bmp280_cal s)\<lparr>t_fine := tf\<rparr>\<rparr>, mem2))))"
  by (cases "int32_of_float (bmp280_T_sum (bmp280_cal s) (bmp280_ut s))")
     (simp_all add: bmp280_calculate_def compensate_T_sum Let_def)

text \<open>The pressure formula does read \<open>t_fine\<close>: a stale value gives another pressure.\<close>

lemma compensate_P_reads_t_fine:
  "bmp280_compensate_P (reference_cal\<lparr>t_fine := 128422\<rparr>) 415148 = Finite 12883616 (- 7)
   \<and> bmp280_compensate_P (reference_cal\<lparr>t_fine := 0\<rparr>) 415148 = Finite 12393096 (- 7)"
  by code_simp

text \<open>
  Claim C2. The result of \<^verbatim>\<open>bmp280_calculate\<close>, the stored outputs and the state it
  leaves, does not depend on the \<open>t_fine\<close> found at entry: replacing it by any stale value
  changes nothing. The pressure is \<^verbatim>\<open>bmp280_compensate_P\<close> on the calibration whose
  \<open>t_fine\<close> is the integer part of \<^verbatim>\<open>var1 + var2\<close> for the raw temperature \<open>bmp280_ut\<close> of
  the current frame, and that value is the \<open>t_fine\<close> left in the state.
\<close>

theorem calculate_uses_fresh_t_fine:
  "bmp280_calculate (s\<lparr>bmp280_cal := (bmp280_cal s)\<lparr>t_fine := stale\<rparr>\<rparr>) pressure temperature mem
     = bmp280_calculate s pressure temperature mem
   \<and> bmp280_calculate s pressure temperature mem =
     (case int32_of_float (bmp280_T_sum (bmp280_cal s) (bmp280_ut s)) of
        None \<Rightarrow> None
      | Some tf \<Rightarrow>
          (case store_int32 pressure
                  (int32_of_float (bmp280_compensate_P ((bmp280_cal s)\<lparr>t_fine := tf\<rparr>) (bmp280_up s)))
                  mem of
             None \<Rightarrow> None
           | Some mem1 \<Rightarrow>
               (case store_int32 temperature
                       (Option.bind
                          (int32_of_float
                             (fdiv (bmp280_T_sum (bmp280_cal s) (bmp280_ut s)) (float_of_int 5120)))
                          (\<lambda>ti. mul_int32 ti 100))
                       mem1 of
                  None \<Rightarrow> None
                | Some mem2 \<Rightarrow> Some (s\<lparr>bmp280_cal := (bmp280_cal s)\<lparr>t_fine := tf\<rparr>\<rparr>, mem2))))"
proof
  show "bmp280_calculate (s\<lparr>bmp280_cal := (bmp280_cal s)\<lparr>t_fine := stale\<rparr>\<rparr>) pressure temperature mem
     = bmp280_calculate s pressure temperature mem"
    by (simp add: calculate_unfold T_sum_t_fine cong: option.case_cong)
next
  show "bmp280_calculate s pressure temperature mem =
     (case int32_of_float (bmp280_T_sum (bmp280_cal s) (bmp280_ut s)) of
        None \<Rightarrow> None
      | Some tf \<Rightarrow>
          (case store_int32 pressure
                  (int32_of_float (bmp280_compensate_P ((bmp280_cal s)\<lparr>t_fine := tf\<rparr>) (bmp280_up s)))
                  mem of
             None \<Rightarrow> None
           | Some mem1 \<Rightarrow>
               (case store_int32 temperature
                       (Option.bind
                          (int32_of_float
                             (fdiv (bmp280_T_sum (bmp280_cal s) (bmp280_ut s)) (float_of_int 5120)))
                          (\<lambda>ti. mul_int32 ti 100))
                       mem1 of
                  None \<Rightarrow> None
                | Some mem2 \<Rightarrow> Some (s\<lparr>bmp280_cal := (bmp280_cal s)\<lparr>t_fine := tf\<rparr>\<rparr>, mem2))))"
    by (rule calculate_unfold)
qed

text \<open>
  For a raw temperature of at most 20 bits, as \<^verbatim>\<open>bmp280_get_up\<close> stores it, and any
  calibration, the temperature side has no undefined conversion: \<^verbatim>\<open>var1 + var2\<close> stays
  below \<open>2 ^ 24\<close> in magnitude and the temperature below \<open>2 ^ 12\<close>.
\<close>

lemma compensate_T_defined:
  assumes "\<bar>sint adc_T\<bar> \<le> 2 ^ 20"
  shows "bmp280_compensate_T cal adc_T \<noteq> None"
proof -
  have "fmag_le (bmp280_T_sum cal adc_T) 24"
    using assms by (rule T_sum_bounded)
  then obtain tf where "int32_of_float (bmp280_T_sum cal adc_T) = Some tf"
    using int32_of_float_defined [of _ 24] by fastforce
  then show ?thesis
    by (simp add: compensate_T_sum)
qed

lemma get_up_ut_range:
  "\<bar>sint (bmp280_ut (fst (bmp280_get_up s bus)))\<bar> \<le> 2 ^ 20"
proof -
  have "0 \<le> sint (bmp280_ut (fst (bmp280_get_up s bus)))"
       "sint (bmp280_ut (fst (bmp280_get_up s bus))) < 2 ^ 20"
    unfolding get_up_ut raw20_sint by (rule raw20_range)+
  then show ?thesis
    by simp
qed

lemma mul_int32_100_defined:
  assumes "\<bar>sint ti\<bar> \<le> 2 ^ 12"
  shows "\<exists>v. mul_int32 ti 100 = Some v"
proof -
  have "- 4096 \<le> sint ti" "sint ti \<le> 4096"
    using assms by simp_all
  then have "- (2 ^ 31) \<le> sint ti * sint (100 :: 32 word)"
    "sint ti * sint (100 :: 32 word) < 2 ^ 31"
    by simp_all
  then have "mul_int32 ti 100 = Some (word_of_int (sint ti * sint (100 :: 32 word)))"
    by (simp only: mul_int32_def Let_def simp_thms if_True)
  then show ?thesis
    by (rule exI)
qed

lemma calculate_temperature_defined:
  assumes "\<bar>sint (bmp280_ut s)\<bar> \<le> 2 ^ 20"
  shows "bmp280_calculate s None temperature mem \<noteq> None"
proof -
  have b: "fmag_le (bmp280_T_sum (bmp280_cal s) (bmp280_ut s)) 24"
    using assms by (rule T_sum_bounded)
  then obtain tf where tf: "int32_of_float (bmp280_T_sum (bmp280_cal s) (bmp280_ut s)) = Some tf"
    using int32_of_float_defined [of _ 24] by fastforce
  have "fmag_le (fdiv (bmp280_T_sum (bmp280_cal s) (bmp280_ut s)) (float_of_int 5120)) (24 - 12)"
    using b by (rule fdiv_constants(5)) simp
  then have "fmag_le (fdiv (bmp280_T_sum (bmp280_cal s) (bmp280_ut s)) (float_of_int 5120)) 12"
    by simp
  then obtain ti where
    ti: "int32_of_float (fdiv (bmp280_T_sum (bmp280_cal s) (bmp280_ut s)) (float_of_int 5120)) = Some ti"
    and r: "\<bar>sint ti\<bar> \<le> 2 ^ 12"
    using int32_of_float_defined [of _ 12] by fastforce
  from r obtain v where v: "mul_int32 ti 100 = Some v"
    using mul_int32_100_defined by blast
  show ?thesis
    by (cases temperature) (simp_all add: calculate_unfold tf ti v store_int32_def)
qed

lemma calculate_after_get_up_defined:
  "bmp280_calculate (fst (bmp280_get_up s bus)) None temperature mem \<noteq> None"
  using get_up_ut_range by (rule calculate_temperature_defined)

text \<open>
  The calculation on a target: where the conversions of C are defined they are the
  conversions of the target.
\<close>

lemma int32_cast_defined: "int32_of_float x = Some w \<Longrightarrow> int32_cast ub x = w"
  by (simp add: int32_cast_def)

lemma compensate_T_target_sum:
  "bmp280_compensate_T_target ub cal adc_T =
     (fdiv (bmp280_T_sum cal adc_T) (float_of_int 5120),
      cal\<lparr>t_fine := int32_cast ub (bmp280_T_sum cal adc_T)\<rparr>)"
  unfolding bmp280_compensate_T_target_def bmp280_T_sum_def Let_def by (rule refl)

lemma calculate_target_unfold:
  "bmp280_calculate_target ub s pressure temperature mem =
     (s\<lparr>bmp280_cal := (bmp280_cal s)\<lparr>t_fine :=
          int32_cast ub (bmp280_T_sum (bmp280_cal s) (bmp280_ut s))\<rparr>\<rparr>,
      (case temperature of
         None \<Rightarrow> (case pressure of
                    None \<Rightarrow> mem
                  | Some a \<Rightarrow> mem(a := int32_cast ub
                      (bmp280_compensate_P ((bmp280_cal s)\<lparr>t_fine :=
                          int32_cast ub (bmp280_T_sum (bmp280_cal s) (bmp280_ut s))\<rparr>)
                        (bmp280_up s))))
       | Some b \<Rightarrow> (case pressure of
                    None \<Rightarrow> mem
                  | Some a \<Rightarrow> mem(a := int32_cast ub
                      (bmp280_compensate_P ((bmp280_cal s)\<lparr>t_fine :=
                          int32_cast ub (bmp280_T_sum (bmp280_cal s) (bmp280_ut s))\<rparr>)
                        (bmp280_up s))))
                  (b := int32_cast ub
                      (fdiv (bmp280_T_sum (bmp280_cal s) (bmp280_ut s)) (float_of_int 5120)) * 100)))"
  by (simp add: bmp280_calculate_target_def compensate_T_target_sum Let_def
      split: option.splits)

lemma mul_int32_word: "mul_int32 x y = Some v \<Longrightarrow> v = x * y"
  by (auto simp: mul_int32_def Let_def split: if_splits)

text \<open>
  Wherever C defines the behaviour of \<^verbatim>\<open>bmp280_calculate\<close>, every target computes the
  result C defines.
\<close>

lemma calculate_target_agrees:
  assumes "bmp280_calculate s pressure temperature mem = Some r"
  shows "bmp280_calculate_target ub s pressure temperature mem = r"
proof -
  from assms obtain tf where
    tf: "int32_of_float (bmp280_T_sum (bmp280_cal s) (bmp280_ut s)) = Some tf"
    by (auto simp: calculate_unfold split: option.splits)
  have c: "int32_cast ub (bmp280_T_sum (bmp280_cal s) (bmp280_ut s)) = tf"
    using tf by (rule int32_cast_defined)
  show ?thesis
    using assms
    by (auto simp: calculate_unfold calculate_target_unfold tf c store_int32_def
        int32_cast_defined dest!: mul_int32_word split: option.splits Option.bind_splits)
qed

text \<open>
  Claim C10. With both pointers null \<^verbatim>\<open>bmp280_calculate\<close> stores nothing and still
  leaves the recomputed \<open>t_fine\<close>. With a null pressure pointer the memory changes at the
  temperature address only, and the conversion of the pressure is not even evaluated;
  with a null temperature pointer the memory changes at the pressure address only. In
  each case the state left holds the \<open>t_fine\<close> of the current frame. A null pointer is
  never a reason to have no result; and after any frame that \<^verbatim>\<open>bmp280_get_up\<close> has read,
  whatever the calibration, the call with a null pressure pointer does have a result.
  With a null temperature pointer C defines the call exactly when the two conversions
  it evaluates are defined; on a target the call returns for every state, frame and
  calibration, the cell of the non-null pointer holds the converted output, no other
  cell changes, and \<open>t_fine\<close> is the one recomputed from the current frame. Whenever C
  defines the call, whatever the pointers, the target computes the result C defines.
\<close>

theorem calculate_null_pointers:
  "bmp280_calculate s None None mem =
     map_option (\<lambda>tf. (s\<lparr>bmp280_cal := (bmp280_cal s)\<lparr>t_fine := tf\<rparr>\<rparr>, mem))
       (int32_of_float (bmp280_T_sum (bmp280_cal s) (bmp280_ut s)))
   \<and> bmp280_calculate s None (Some a) mem =
     Option.bind (int32_of_float (bmp280_T_sum (bmp280_cal s) (bmp280_ut s)))
       (\<lambda>tf. map_option (\<lambda>v. (s\<lparr>bmp280_cal := (bmp280_cal s)\<lparr>t_fine := tf\<rparr>\<rparr>, mem(a := v)))
          (Option.bind
             (int32_of_float (fdiv (bmp280_T_sum (bmp280_cal s) (bmp280_ut s)) (float_of_int 5120)))
             (\<lambda>ti. mul_int32 ti 100)))
   \<and> bmp280_calculate s (Some a) None mem =
     Option.bind (int32_of_float (bmp280_T_sum (bmp280_cal s) (bmp280_ut s)))
       (\<lambda>tf. map_option (\<lambda>v. (s\<lparr>bmp280_cal := (bmp280_cal s)\<lparr>t_fine := tf\<rparr>\<rparr>, mem(a := v)))
          (int32_of_float (bmp280_compensate_P ((bmp280_cal s)\<lparr>t_fine := tf\<rparr>) (bmp280_up s))))
   \<and> bmp280_calculate (fst (bmp280_get_up s bus)) None temperature mem \<noteq> None
   \<and> bmp280_calculate_target ub s None None mem =
     (s\<lparr>bmp280_cal := (bmp280_cal s)\<lparr>t_fine :=
          int32_cast ub (bmp280_T_sum (bmp280_cal s) (bmp280_ut s))\<rparr>\<rparr>, mem)
   \<and> bmp280_calculate_target ub s None (Some a) mem =
     (s\<lparr>bmp280_cal := (bmp280_cal s)\<lparr>t_fine :=
          int32_cast ub (bmp280_T_sum (bmp280_cal s) (bmp280_ut s))\<rparr>\<rparr>,
      mem(a := int32_cast ub
                 (fdiv (bmp280_T_sum (bmp280_cal s) (bmp280_ut s)) (float_of_int 5120)) * 100))
   \<and> bmp280_calculate_target ub s (Some a) None mem =
     (s\<lparr>bmp280_cal := (bmp280_cal s)\<lparr>t_fine :=
          int32_cast ub (bmp280_T_sum (bmp280_cal s) (bmp280_ut s))\<rparr>\<rparr>,
      mem(a := int32_cast ub
                 (bmp280_compensate_P ((bmp280_cal s)\<lparr>t_fine :=
                      int32_cast ub (bmp280_T_sum (bmp280_cal s) (bmp280_ut s))\<rparr>)
                    (bmp280_up s))))
   \<and> (bmp280_calculate s pressure temperature mem = None
      \<or> bmp280_calculate s pressure temperature mem =
          Some (bmp280_calculate_target ub s pressure temperature mem))"
proof -
  have d: "bmp280_calculate (fst (bmp280_get_up s bus)) None temperature mem \<noteq> None"
    by (rule calculate_after_get_up_defined)
  have c: "bmp280_calculate s None None mem =
     map_option (\<lambda>tf. (s\<lparr>bmp280_cal := (bmp280_cal s)\<lparr>t_fine := tf\<rparr>\<rparr>, mem))
       (int32_of_float (bmp280_T_sum (bmp280_cal s) (bmp280_ut s)))
   \<and> bmp280_calculate s None (Some a) mem =
     Option.bind (int32_of_float (bmp280_T_sum (bmp280_cal s) (bmp280_ut s)))
       (\<lambda>tf. map_option (\<lambda>v. (s\<lparr>bmp280_cal := (bmp280_cal s)\<lparr>t_fine := tf\<rparr>\<rparr>, mem(a := v)))
          (Option.bind
             (int32_of_float (fdiv (bmp280_T_sum (bmp280_cal s) (bmp280_ut s)) (float_of_int 5120)))
             (\<lambda>ti. mul_int32 ti 100)))
   \<and> bmp280_calculate s (Some a) None mem =
     Option.bind (int32_of_float (bmp280_T_sum (bmp280_cal s) (bmp280_ut s)))
       (\<lambda>tf. map_option (\<lambda>v. (s\<lparr>bmp280_cal := (bmp280_cal s)\<lparr>t_fine := tf\<rparr>\<rparr>, mem(a := v)))
          (int32_of_float (bmp280_compensate_P ((bmp280_cal s)\<lparr>t_fine := tf\<rparr>) (bmp280_up s))))"
    by (auto simp: calculate_unfold store_int32_def split: option.splits)
  have t: "bmp280_calculate_target ub s None None mem =
     (s\<lparr>bmp280_cal := (bmp280_cal s)\<lparr>t_fine :=
          int32_cast ub (bmp280_T_sum (bmp280_cal s) (bmp280_ut s))\<rparr>\<rparr>, mem)
   \<and> bmp280_calculate_target ub s None (Some a) mem =
     (s\<lparr>bmp280_cal := (bmp280_cal s)\<lparr>t_fine :=
          int32_cast ub (bmp280_T_sum (bmp280_cal s) (bmp280_ut s))\<rparr>\<rparr>,
      mem(a := int32_cast ub
                 (fdiv (bmp280_T_sum (bmp280_cal s) (bmp280_ut s)) (float_of_int 5120)) * 100))
   \<and> bmp280_calculate_target ub s (Some a) None mem =
     (s\<lparr>bmp280_cal := (bmp280_cal s)\<lparr>t_fine :=
          int32_cast ub (bmp280_T_sum (bmp280_cal s) (bmp280_ut s))\<rparr>\<rparr>,
      mem(a := int32_cast ub
                 (bmp280_compensate_P ((bmp280_cal s)\<lparr>t_fine :=
                      int32_cast ub (bmp280_T_sum (bmp280_cal s) (bmp280_ut s))\<rparr>)
                    (bmp280_up s))))"
    by (simp add: calculate_target_unfold)
  have g: "bmp280_calculate s pressure temperature mem = None
      \<or> bmp280_calculate s pressure temperature mem =
          Some (bmp280_calculate_target ub s pressure temperature mem)"
    using calculate_target_agrees [of s pressure temperature mem _ ub]
    by (cases "bmp280_calculate s pressure temperature mem") simp_all
  show ?thesis
    using c d t g by (simp only: simp_thms)
qed

text \<open>
  On the reference state: with a null pressure pointer the temperature cell is written
  and the pressure cell keeps its old content, and the other way round.
\<close>

lemma calculate_null_pointers_reference:
  "map_option (\<lambda>(s, mem). (sint (t_fine (bmp280_cal s)), sint (mem 0), sint (mem 1)))
     (bmp280_calculate reference_state None (Some 1) (\<lambda>a. 7)) = Some (128422, 7, 2500)
   \<and> map_option (\<lambda>(s, mem). (sint (t_fine (bmp280_cal s)), sint (mem 0), sint (mem 1)))
     (bmp280_calculate reference_state (Some 0) None (\<lambda>a. 7)) = Some (128422, 100653, 7)
   \<and> map_option (\<lambda>(s, mem). (sint (t_fine (bmp280_cal s)), sint (mem 0), sint (mem 1)))
     (bmp280_calculate reference_state None None (\<lambda>a. 7)) = Some (128422, 7, 7)"
  by code_simp

text \<open>
  On the sensor with the corrupt calibration the compensated pressure is \<open>3958925056\<close>,
  above \<open>2 ^ 31\<close>: with a pressure pointer C leaves the call undefined, and the target
  stores in the pressure cell the word its conversion delivers.
\<close>

lemma corrupt_state_value:
  "corrupt_state = \<lparr>bmp280_chip_id = 0x58, bmp280InitDone = True,
      bmp280_cal = \<lparr>dig_T1 = 0, dig_T2 = 0, dig_T3 = 0, dig_P1 = 1, dig_P2 = 0, dig_P3 = 0,
        dig_P4 = 0, dig_P5 = 0, dig_P6 = 0, dig_P7 = 0, dig_P8 = 0, dig_P9 = 0, t_fine = 0\<rparr>,
      bmp280_up = 415148, bmp280_ut = 519888\<rparr>"
  by code_simp

lemma corrupt_values:
  "bmp280_T_sum (bmp280_cal corrupt_state) (bmp280_ut corrupt_state) = Finite 0 0"
  "bmp280_compensate_P ((bmp280_cal corrupt_state)\<lparr>t_fine := 0\<rparr>) (bmp280_up corrupt_state)
     = Finite 15464551 8"
  "int32_of_float (Finite 15464551 8) = None"
  "int32_of_float (Finite 0 0) = Some 0"
  "valof (Finite 15464551 8) = 3958925056"
  by code_simp+

lemma calculate_corrupt_calibration:
  "bmp280_calculate corrupt_state (Some 0) None (\<lambda>a. 7) = None
   \<and> snd (bmp280_calculate_target ub corrupt_state (Some 0) None (\<lambda>a. 7)) =
       (\<lambda>a. 7)(0 := ub (Finite 15464551 8))
   \<and> map_option (\<lambda>(s, mem). (sint (mem 0), sint (mem 1)))
       (bmp280_calculate corrupt_state None (Some 1) (\<lambda>a. 7)) = Some (7, 0)"
proof -
  have "map_option (\<lambda>(s, mem). (sint (mem 0), sint (mem 1)))
       (bmp280_calculate corrupt_state None (Some 1) (\<lambda>a. 7)) = Some (7, 0)"
    by code_simp
  then show ?thesis
    by (simp add: calculate_unfold calculate_target_unfold corrupt_values int32_cast_def
        store_int32_def)
qed

lemma reference_state_value:
  "reference_state = \<lparr>bmp280_chip_id = 0x58, bmp280InitDone = True, bmp280_cal = reference_cal,
      bmp280_up = 415148, bmp280_ut = 519888\<rparr>"
  by code_simp

lemma mul_int32_sint: "mul_int32 x y = Some v \<Longrightarrow> sint v = sint x * sint y"
proof -
  assume a: "mul_int32 x y = Some v"
  then have r: "- (2 ^ 31) \<le> sint x * sint y" "sint x * sint y < 2 ^ 31"
    and v: "v = word_of_int (sint x * sint y)"
    by (auto simp: mul_int32_def Let_def split: if_splits)
  have g: "sint (word_of_int k :: 32 word) = signed_take_bit 31 k" for k :: int
    by (simp add: signed_of_int)
  have "sint (word_of_int (sint x * sint y) :: 32 word) = signed_take_bit 31 (sint x * sint y)"
    by (rule g)
  also have "\<dots> = sint x * sint y"
    using r by (rule signed_take_bit_int_eq_self)
  finally show ?thesis
    using v by simp
qed

text \<open>
  Whatever the frame, the temperature \<^verbatim>\<open>bmp280_calculate\<close> stores is a whole number of
  degrees times 100: the hundredths are always zero.
\<close>

lemma calculate_temperature_multiple_of_100:
  assumes "bmp280_calculate s pressure (Some a) mem = Some (s', mem')"
  shows "sint (mem' a) mod 100 = 0"
proof -
  from assms obtain ti v where "mul_int32 ti 100 = Some v" "mem' a = v"
    by (auto simp: calculate_unfold store_int32_def split: option.splits Option.bind_splits)
  then show ?thesis
    using mul_int32_sint [of ti 100 v] by simp
qed

text \<open>
  Claim C1, at the reference state (calibration and frame of the data sheet's example,
  as \<^verbatim>\<open>bmp280Detect\<close> and \<^verbatim>\<open>bmp280_get_up\<close> leave them). \<^verbatim>\<open>bmp280_compensate_T\<close> returns
  \<open>13150442 / 2 ^ 19\<close>, about 25.0825 degrees. The integer part of 100 times that number
  is 2508, and \<^verbatim>\<open>bmp280_calculate\<close> stores 2500: the cast in \<^verbatim>\<open>(int32_t)t * 100\<close> applies
  to \<open>t\<close> alone. The pressure stored is 100653.
\<close>

theorem calculate_reference_temperature:
  "map_option (\<lambda>(s, mem). (sint (mem 0), sint (mem 1)))
     (bmp280_calculate reference_state (Some 0) (Some 1) (\<lambda>a. 0)) = Some (100653, 2500)
   \<and> map_option fst (bmp280_compensate_T (bmp280_cal reference_state) (bmp280_ut reference_state))
       = Some (Finite 13150442 (- 19))
   \<and> valof (Finite 13150442 (- 19)) = 6575221 / 262144
   \<and> map_option sint (spec_temperature_centi (Finite 13150442 (- 19))) = Some 2508"
  by code_simp

end
